theory Spec2Isabelle
  imports Main
begin

section \<open>The session cart (cart/cart.py)\<close>

text \<open>
  Amounts of money are Python \<open>Decimal\<close>s whose exponent is at least -2 (the
  \<open>DecimalField(decimal_places=2)\<close> columns of shopapp/models.py); such a value is
  an \<open>int\<close> number of hundredths. Quantities are Python \<open>int\<close>s.

  \<open>product_data\<close> is the display snapshot that \<open>Cart.add\<close> takes from
  \<open>CatalogProductSerializer\<close>; of its fields the cart code reads and writes only
  \<open>price\<close> and \<open>count\<close>.
\<close>

record product_data =
  title :: string
  price :: int
  count :: int

record cart_item =
  product_id :: string
  product_data :: product_data

datatype exn =
    PermissionDenied string
  | NotAuthenticated
  | DoesNotExist string
  | MultipleObjectsReturned string
  | KeyError string
  | AttributeError string
  | IntegrityError string
  | ValueError string
  | Overflow
  | InvalidOperation

subsection \<open>Decimal arithmetic\<close>

text \<open>
  Python computes a \<open>Decimal\<close> product or sum exactly and then fits it to the
  context, which the code never changes: a precision of 28 significant digits, rounding
  half to even, and a largest adjusted exponent of 999999, beyond which the trapped
  signal \<open>Overflow\<close> is raised. \<open>excess n\<close> is the number of digits that \<open>n\<close> has
  beyond 28; a number of hundredths with \<open>28 + k\<close> digits has the adjusted exponent
  \<open>25 + k\<close>.
\<close>

function excess :: "int \<Rightarrow> nat" where
  "excess n = (if n < 10 ^ 28 then 0 else Suc (excess (n div 10)))"
  by pat_completeness auto
termination
  by (relation "measure nat") auto

definition round_half_even :: "int \<Rightarrow> nat \<Rightarrow> int" where
  "round_half_even n k =
     (let q = n div 10 ^ k; r = n mod 10 ^ k
      in if 10 ^ k < 2 * r \<or> (2 * r = 10 ^ k \<and> odd q) then (q + 1) * 10 ^ k else q * 10 ^ k)"

definition context_round :: "int \<Rightarrow> exn + int" where
  "context_round v =
     (let m = round_half_even \<bar>v\<bar> (excess \<bar>v\<bar>)
      in if 999974 < excess m then Inl Overflow else Inr (sgn v * m))"

definition decimal_mul :: "int \<Rightarrow> int \<Rightarrow> exn + int" where
  "decimal_mul amount n = context_round (amount * n)"

definition decimal_add :: "int \<Rightarrow> int \<Rightarrow> exn + int" where
  "decimal_add a b = context_round (a + b)"

text \<open>
  \<open>Cart.add\<close>, first part: the \<open>for\<close> loop that looks for a line with the given
  \<open>product_id\<close>, adds \<open>quantity\<close> to the count of the first one and returns.
  \<open>None\<close> means that the loop ran to its end without a match.
\<close>

fun add_existing :: "string \<Rightarrow> int \<Rightarrow> cart_item list \<Rightarrow> cart_item list option" where
  "add_existing pid quantity [] = None"
| "add_existing pid quantity (item # items) =
     (if product_id item = pid
      then Some (item\<lparr>product_data := (product_data item)\<lparr>count := count (product_data item) + quantity\<rparr>\<rparr> # items)
      else map_option ((#) item) (add_existing pid quantity items))"

text \<open>
  \<open>Cart.add\<close>. The catalog is the collaborator
  \<open>dict(CatalogProductSerializer(Product.objects.get(pk=product_id)).data)\<close>: it gives
  the snapshot of a product, and \<open>None\<close> where \<open>Product.objects.get\<close> raises.
  The exception leaves the method before the list is touched.
\<close>

definition add :: "(string \<Rightarrow> product_data option) \<Rightarrow> string \<Rightarrow> int \<Rightarrow> cart_item list \<Rightarrow> exn + cart_item list" where
  "add catalog pid quantity items =
     (case add_existing pid quantity items of
        Some items' \<Rightarrow> Inr items'
      | None \<Rightarrow>
          (case catalog pid of
             None \<Rightarrow> Inl (DoesNotExist ''Product'')
           | Some data \<Rightarrow>
               Inr (items @ [\<lparr>product_id = pid, product_data = data\<lparr>count := quantity\<rparr>\<rparr>])))"

text \<open>
  \<open>Cart.remove\<close>. The Python loop iterates over the list it mutates: the list iterator
  is an index \<open>i\<close> that advances by one each round and stops when it reaches the
  current length, and \<open>list.remove(item)\<close> deletes the first element equal to
  \<open>item\<close> (\<open>remove1\<close>). There is no \<open>return\<close> in the loop.
\<close>

function remove_from :: "string \<Rightarrow> int \<Rightarrow> cart_item list \<Rightarrow> nat \<Rightarrow> cart_item list" where
  "remove_from pid quantity items i =
     (if i < length items then
        (let item = items ! i in
         if product_id item = pid then
           (let item' = item\<lparr>product_data := (product_data item)\<lparr>count := count (product_data item) - quantity\<rparr>\<rparr>;
                items' = items[i := item']
            in if count (product_data item') \<le> 0
               then remove_from pid quantity (remove1 item' items') (Suc i)
               else remove_from pid quantity items' (Suc i))
         else remove_from pid quantity items (Suc i))
      else items)"
  by pat_completeness auto
termination
  by (relation "measure (\<lambda>(pid, quantity, items, i). Suc (length items) - i)")
     (auto simp: length_remove1)

definition remove :: "string \<Rightarrow> int \<Rightarrow> cart_item list \<Rightarrow> cart_item list" where
  "remove pid quantity items = remove_from pid quantity items 0"

text \<open>\<open>Cart.clear\<close> and \<open>Cart.get_cart_products\<close>.\<close>

definition clear :: "cart_item list \<Rightarrow> cart_item list" where
  "clear items = []"

definition get_cart_products :: "cart_item list \<Rightarrow> product_data list" where
  "get_cart_products items = map product_data items"

text \<open>
  \<open>Cart.get_cart_total\<close>: the accumulating loop, started at \<open>Decimal(0)\<close>. Each
  round multiplies the price by the count and adds the product to the total, both in
  \<open>Decimal\<close> arithmetic.
\<close>

fun total_loop :: "int \<Rightarrow> cart_item list \<Rightarrow> exn + int" where
  "total_loop acc [] = Inr acc"
| "total_loop acc (item # items) =
     (case decimal_mul (price (product_data item)) (count (product_data item)) of
        Inl e \<Rightarrow> Inl e
      | Inr amount \<Rightarrow>
          (case decimal_add acc amount of
             Inl e \<Rightarrow> Inl e
           | Inr acc' \<Rightarrow> total_loop acc' items))"

definition get_cart_total :: "cart_item list \<Rightarrow> exn + int" where
  "get_cart_total items = total_loop 0 items"

section \<open>The relational store (shopapp/models.py)\<close>

text \<open>
  A table is the list of its rows, in insertion order; a row carries its primary key.
  Foreign keys hold the primary key of the row they point to. \<open>Order.createdAt\<close> is
  written once by the database and read by no operation below; it is left out.
\<close>

record Product =
  product_pk :: nat
  product_price :: int

record Order =
  pk :: nat
  profile :: "nat option"
  deliveryType :: string
  paymentType :: string
  totalCost :: int
  status :: string
  city :: string
  address :: string

record OrderItem =
  item_order :: nat
  item_product :: nat
  quantity :: int

record OrderDeliveryType =
  dtype :: string
  min_cost :: int
  delivery_cost :: int

text \<open>The card fields of a payment are text, lists of code points.\<close>

record card =
  number :: "nat list"
  name :: "nat list"
  year :: "nat list"
  month :: "nat list"
  code :: "nat list"

record Payment =
  payment_order :: nat
  payment_card :: card

text \<open>
  The session holds the cart under \<open>settings.CART_SESSION_ID\<close> and, possibly, the key
  \<open>'order_id'\<close>. For the cart, \<open>None\<close> stands for every value that
  \<open>Cart.__init__\<close> treats as absent (no entry, or the empty dict that checkout
  leaves behind); \<open>Some items\<close> is the dict \<open>{'items': items}\<close>.
\<close>

record session =
  cart :: "cart_item list option"
  order_id :: "nat option"

record state =
  products :: "Product list"
  orders :: "Order list"
  order_items :: "OrderItem list"
  delivery_types :: "OrderDeliveryType list"
  payments :: "Payment list"
  session :: session

text \<open>
  \<open>request.user\<close>: Django's \<open>AnonymousUser\<close>, or a \<open>User\<close> row together with the
  primary key of its \<open>Profile\<close> (the reverse side of \<open>Profile.user\<close>, a
  one-to-one field), if it has one.
\<close>

datatype user = AnonymousUser | User "nat option"

text \<open>
  An error message: one of the framework's own (required, blank, too long, null or
  surrogate character, too many digits), or the text that the repository's code raises.
\<close>

datatype message =
    Required
  | Blank
  | MaxLength nat
  | NullCharacters
  | SurrogateCharacters
  | MaxDigits nat
  | MaxDecimalPlaces nat
  | MaxWholeDigits nat
  | Message string

type_synonym errors = "(string \<times> message list) list"

datatype body =
    NoBody
  | Detail string
  | OrderId nat
  | Errors errors
  | ServerError exn

datatype response = Response (status_code: nat) (data: body)

subsection \<open>Object-relational operations\<close>

definition Product_get :: "Product list \<Rightarrow> nat \<Rightarrow> Product option" where
  "Product_get rows k = find (\<lambda>p. product_pk p = k) rows"

definition Order_get :: "Order list \<Rightarrow> nat \<Rightarrow> Order option" where
  "Order_get rows k = find (\<lambda>r. pk r = k) rows"

text \<open>The key the database gives to a new row: one more than every key in use.\<close>

definition new_pk :: "Order list \<Rightarrow> nat" where
  "new_pk rows = Suc (foldr max (map pk rows) 0)"

text \<open>
  \<open>Order.objects.create(profile=p)\<close>: the other columns take their defaults, the empty
  string for a \<open>CharField\<close> and \<open>0\<close> for \<open>totalCost\<close>.
\<close>

definition Order_create :: "nat option \<Rightarrow> Order list \<Rightarrow> Order \<times> Order list" where
  "Order_create p rows =
     (let order = \<lparr>pk = new_pk rows, profile = p, deliveryType = [], paymentType = [],
                    totalCost = 0, status = [], city = [], address = []\<rparr>
      in (order, rows @ [order]))"

text \<open>
  \<open>order.save()\<close> writes the object over the row that has its primary key. Before
  the statement is sent, \<open>totalCost\<close> is fitted to its column
  (\<open>max_digits=13, decimal_places=2\<close>), which raises \<open>decimal.InvalidOperation\<close>
  for a value of more than 13 digits.
\<close>

definition write_row :: "Order \<Rightarrow> Order list \<Rightarrow> Order list" where
  "write_row order rows = map (\<lambda>r. if pk r = pk order then order else r) rows"

definition Order_save :: "Order \<Rightarrow> Order list \<Rightarrow> exn + Order list" where
  "Order_save order rows =
     (if 10 ^ 13 \<le> \<bar>totalCost order\<bar> then Inl InvalidOperation
      else Inr (write_row order rows))"

text \<open>
  \<open>OrderDeliveryType.objects.get(type=t)\<close>: the column \<open>type\<close> is not unique, so
  the query has three outcomes.
\<close>

definition OrderDeliveryType_get :: "OrderDeliveryType list \<Rightarrow> string \<Rightarrow> exn + OrderDeliveryType" where
  "OrderDeliveryType_get rows t =
     (case filter (\<lambda>r. dtype r = t) rows of
        [] \<Rightarrow> Inl (DoesNotExist ''OrderDeliveryType'')
      | [r] \<Rightarrow> Inr r
      | _ \<Rightarrow> Inl (MultipleObjectsReturned ''OrderDeliveryType''))"

text \<open>
  \<open>request.user.profile\<close>: \<open>AnonymousUser\<close> has no such attribute, and a user
  without a \<open>Profile\<close> row raises \<open>Profile.DoesNotExist\<close>.
\<close>

definition user_profile :: "user \<Rightarrow> exn + nat" where
  "user_profile u =
     (case u of
        AnonymousUser \<Rightarrow> Inl (AttributeError ''profile'')
      | User None \<Rightarrow> Inl (DoesNotExist ''Profile'')
      | User (Some p) \<Rightarrow> Inr p)"

text \<open>The permission class \<open>IsAuthenticated\<close>.\<close>

definition IsAuthenticated :: "user \<Rightarrow> bool" where
  "IsAuthenticated u = (u \<noteq> AnonymousUser)"

section \<open>Serializers (shopapp/serializers.py)\<close>

subsection \<open>The body of a confirmation\<close>

text \<open>
  A field that the body does not carry is \<open>None\<close>. The text fields of a confirmation
  are only compared, measured and stored; each is the string that the framework's
  \<open>CharField\<close> hands to the validators. \<open>totalCost\<close> is a decimal literal, as
  \<open>Decimal(str(data))\<close> reads it: the integer of its digits, with its sign, and its
  exponent (\<open>1999.0\<close> is \<open>Decimal 19990 (-1)\<close>).
\<close>

datatype Decimal = Decimal (coefficient: int) (exponent: int)

record 'a OrderConfirmData =
  data_deliveryType :: "string option"
  data_paymentType :: "string option"
  data_totalCost :: "'a option"
  data_status :: "string option"
  data_city :: "string option"
  data_address :: "string option"

text \<open>
  What the framework's \<open>CharField(max_length=n)\<close> checks: the value is not blank,
  then the validators (maximal length, no null character), whose messages are
  collected.
\<close>

definition char_field :: "nat \<Rightarrow> string \<Rightarrow> message list" where
  "char_field n v =
     (if v = [] then [Blank]
      else (if n < length v then [MaxLength n] else [])
         @ (if CHR 0x00 \<in> set v then [NullCharacters] else []))"

text \<open>A field of a serializer used with \<open>partial=True\<close>: skipped when absent.\<close>

definition partial_field :: "string \<Rightarrow> nat \<Rightarrow> string option \<Rightarrow> errors" where
  "partial_field key n v =
     (case v of
        None \<Rightarrow> []
      | Some x \<Rightarrow> (if char_field n x = [] then [] else [(key, char_field n x)]))"

text \<open>
  The framework's \<open>DecimalField(max_digits=13, decimal_places=2)\<close>:
  \<open>validate_precision\<close> counts the digits of the literal (\<open>ndigits\<close>, one for
  zero), its decimal places and its whole digits, and fails at the first bound that is
  exceeded; the value handed on is the literal quantized to two places, a number of
  hundredths.
\<close>

function ndigits :: "int \<Rightarrow> nat" where
  "ndigits n = (if n < 10 then 1 else Suc (ndigits (n div 10)))"
  by pat_completeness auto
termination
  by (relation "measure nat") auto

definition decimal_field :: "Decimal \<Rightarrow> message list" where
  "decimal_field v =
     (let n = int (ndigits \<bar>coefficient v\<bar>); e = exponent v;
          total_digits = (if 0 \<le> e then n + e else if - e < n then n else - e);
          decimal_places = (if 0 \<le> e then 0 else - e);
          whole_digits = (if 0 \<le> e then n + e else if - e < n then n + e else 0)
      in if 13 < total_digits then [MaxDigits 13]
         else if 2 < decimal_places then [MaxDecimalPlaces 2]
         else if 11 < whole_digits then [MaxWholeDigits 11]
         else [])"

definition hundredths :: "Decimal \<Rightarrow> int" where
  "hundredths v = coefficient v * 10 ^ nat (exponent v + 2)"

definition partial_decimal :: "string \<Rightarrow> Decimal option \<Rightarrow> errors" where
  "partial_decimal key v =
     (case v of
        None \<Rightarrow> []
      | Some x \<Rightarrow> (if decimal_field x = [] then [] else [(key, decimal_field x)]))"

subsection \<open>OrderConfirmSerializer\<close>

text \<open>
  The writable fields of \<open>OrderSerializer.Meta.fields\<close>, in their order, with the
  lengths of the \<open>Order\<close> columns; and the values that they hand on.
\<close>

definition OrderConfirmSerializer_fields :: "Decimal OrderConfirmData \<Rightarrow> errors" where
  "OrderConfirmSerializer_fields d =
       partial_field ''deliveryType'' 20 (data_deliveryType d)
     @ partial_field ''paymentType'' 20 (data_paymentType d)
     @ partial_decimal ''totalCost'' (data_totalCost d)
     @ partial_field ''status'' 20 (data_status d)
     @ partial_field ''city'' 100 (data_city d)
     @ partial_field ''address'' 100 (data_address d)"

definition to_internal_value :: "Decimal OrderConfirmData \<Rightarrow> int OrderConfirmData" where
  "to_internal_value d =
     \<lparr>data_deliveryType = data_deliveryType d, data_paymentType = data_paymentType d,
      data_totalCost = map_option hundredths (data_totalCost d),
      data_status = data_status d, data_city = data_city d, data_address = data_address d\<rparr>"

text \<open>
  \<open>OrderConfirmSerializer.validate\<close>. The outer sum is an exception that leaves the
  serializer (a missing key of \<open>data\<close>, several pricing rows of one type, an overflow
  of the sum); the inner \<open>Inl\<close> is the \<open>ValidationError\<close> that \<open>is_valid\<close> turns
  into \<open>serializer.errors\<close>.
\<close>

definition OrderConfirmSerializer_validate ::
    "OrderDeliveryType list \<Rightarrow> int OrderConfirmData \<Rightarrow> exn + (errors + int OrderConfirmData)" where
  "OrderConfirmSerializer_validate rules d =
     (case data_deliveryType d of
        None \<Rightarrow> Inl (KeyError ''deliveryType'')
      | Some delivery_type \<Rightarrow>
          (case OrderDeliveryType_get rules delivery_type of
             Inl (DoesNotExist m) \<Rightarrow>
               Inr (Inl [(''non_field_errors'', [Message (''Unsupported delivery type: '' @ delivery_type)])])
           | Inl e \<Rightarrow> Inl e
           | Inr delivery_payment_parameters \<Rightarrow>
               (case data_totalCost d of
                  None \<Rightarrow> Inl (KeyError ''totalCost'')
                | Some subtotal \<Rightarrow>
                    (if delivery_type = ''free'' \<and> min_cost delivery_payment_parameters < subtotal
                     then Inr (Inr d)
                     else (case decimal_add subtotal (delivery_cost delivery_payment_parameters) of
                             Inl e \<Rightarrow> Inl e
                           | Inr cost \<Rightarrow> Inr (Inr (d\<lparr>data_totalCost := Some cost\<rparr>)))))))"

text \<open>\<open>is_valid\<close>: the fields first; \<open>validate\<close> only when no field failed.\<close>

definition OrderConfirmSerializer_is_valid ::
    "OrderDeliveryType list \<Rightarrow> Decimal OrderConfirmData \<Rightarrow> exn + (errors + int OrderConfirmData)" where
  "OrderConfirmSerializer_is_valid rules d =
     (if OrderConfirmSerializer_fields d \<noteq> [] then Inr (Inl (OrderConfirmSerializer_fields d))
      else OrderConfirmSerializer_validate rules (to_internal_value d))"

text \<open>
  \<open>serializer.save()\<close> on a serializer built with an instance is the framework's
  \<open>ModelSerializer.update\<close>: every validated attribute is set on the instance, which
  is then saved.
\<close>

definition OrderConfirmSerializer_update :: "Order \<Rightarrow> int OrderConfirmData \<Rightarrow> Order" where
  "OrderConfirmSerializer_update order d =
     order\<lparr>deliveryType := case_option (deliveryType order) id (data_deliveryType d),
           paymentType := case_option (paymentType order) id (data_paymentType d),
           totalCost := case_option (totalCost order) id (data_totalCost d),
           status := case_option (status order) id (data_status d),
           city := case_option (city order) id (data_city d),
           address := case_option (address order) id (data_address d)\<rparr>"

subsection \<open>The body of a payment\<close>

text \<open>
  The card fields are the text that the body carries, a Python \<open>str\<close>: the list of
  its code points. Which code points \<open>str.isdigit\<close> accepts, which of them \<open>int\<close>
  reads as a decimal digit and with what value, and which \<open>str.strip\<close> removes is
  laid down in the Unicode character database of the interpreter, which is not part of
  the repository; the three tables are a parameter of everything that reads a card.
\<close>

type_synonym str = "nat list"

record unicode =
  digit :: "nat \<Rightarrow> bool"
  decimal_value :: "nat \<Rightarrow> nat option"
  space :: "nat \<Rightarrow> bool"

record PaymentData =
  data_number :: "str option"
  data_name :: "str option"
  data_year :: "str option"
  data_month :: "str option"
  data_code :: "str option"

text \<open>
  \<open>str.isdigit\<close>: the text is not empty and each of its characters is a digit.
  \<open>int\<close> of such a text: the number that its characters spell when each of them is a
  decimal digit, and \<open>ValueError\<close> (\<open>None\<close>) otherwise.
\<close>

definition isdigit :: "unicode \<Rightarrow> str \<Rightarrow> bool" where
  "isdigit U v = (v \<noteq> [] \<and> list_all (digit U) v)"

fun int_loop :: "unicode \<Rightarrow> int \<Rightarrow> str \<Rightarrow> int option" where
  "int_loop U n [] = Some n"
| "int_loop U n (c # cs) =
     (case decimal_value U c of
        None \<Rightarrow> None
      | Some d \<Rightarrow> int_loop U (10 * n + int d) cs)"

definition py_int :: "unicode \<Rightarrow> str \<Rightarrow> int option" where
  "py_int U v = int_loop U 0 v"

definition strip :: "unicode \<Rightarrow> str \<Rightarrow> str" where
  "strip U v = rev (dropWhile (space U) (rev (dropWhile (space U) v)))"

text \<open>
  The framework's \<open>CharField(max_length=n)\<close> on such a text: the value is trimmed and
  must not be blank; then the validators run (maximal length, no null character, no
  surrogate character) and their messages are collected. The result is the messages,
  or the trimmed value.
\<close>

definition text_field :: "unicode \<Rightarrow> nat \<Rightarrow> str \<Rightarrow> message list + str" where
  "text_field U n v =
     (let x = strip U v
      in if x = [] then Inl [Blank]
         else (let messages =
                     (if n < length x then [MaxLength n] else [])
                   @ (if 0 \<in> set x then [NullCharacters] else [])
                   @ (if list_ex (\<lambda>c. 55296 \<le> c \<and> c \<le> 57343) x then [SurrogateCharacters] else [])
               in if messages = [] then Inr x else Inl messages))"

text \<open>
  A required field with a \<open>validate_<field>\<close> method: the method runs on a value that
  passed the field's own checks, and its \<open>ValidationError\<close> is filed under the field;
  any other exception of the method leaves the serializer.
\<close>

definition required_field ::
    "unicode \<Rightarrow> string \<Rightarrow> nat \<Rightarrow> (str \<Rightarrow> exn + string option) \<Rightarrow> str option \<Rightarrow> exn + errors" where
  "required_field U key n validate_method v =
     (case v of
        None \<Rightarrow> Inr [(key, [Required])]
      | Some x \<Rightarrow>
          (case text_field U n x of
             Inl messages \<Rightarrow> Inr [(key, messages)]
           | Inr y \<Rightarrow>
               (case validate_method y of
                  Inl e \<Rightarrow> Inl e
                | Inr None \<Rightarrow> Inr []
                | Inr (Some text) \<Rightarrow> Inr [(key, [Message text])])))"

text \<open>The fields are run in their order; an exception ends the run.\<close>

definition and_then :: "exn + errors \<Rightarrow> exn + errors \<Rightarrow> exn + errors" where
  "and_then r r' =
     (case r of
        Inl e \<Rightarrow> Inl e
      | Inr errs \<Rightarrow> (case r' of Inl e \<Rightarrow> Inl e | Inr errs' \<Rightarrow> Inr (errs @ errs')))"

subsection \<open>PaymentSerializer\<close>

definition validate_year :: "unicode \<Rightarrow> str \<Rightarrow> exn + string option" where
  "validate_year U v =
     (if \<not> isdigit U v \<or> length v \<noteq> 4 then Inr (Some ''Expiry year must be a 4-digit number.'')
      else Inr None)"

definition validate_month :: "unicode \<Rightarrow> str \<Rightarrow> exn + string option" where
  "validate_month U v =
     (if \<not> isdigit U v then Inr (Some ''Expiry month must be a number between 01 and 12.'')
      else (case py_int U v of
              None \<Rightarrow> Inl (ValueError ''int'')
            | Some n \<Rightarrow>
                (if \<not> (1 \<le> n \<and> n \<le> 12)
                 then Inr (Some ''Expiry month must be a number between 01 and 12.'')
                 else Inr None)))"

definition validate_code :: "unicode \<Rightarrow> str \<Rightarrow> exn + string option" where
  "validate_code U v =
     (if \<not> isdigit U v \<or> \<not> (3 \<le> length v \<and> length v \<le> 4)
      then Inr (Some ''CVV must be a 3 or 4-digit number.'')
      else Inr None)"

text \<open>
  The fields \<open>('number', 'name', 'year', 'month', 'code')\<close> with the lengths of the
  \<open>Payment\<close> columns; \<open>number\<close> and \<open>name\<close> have no method of their own.
\<close>

definition PaymentSerializer_errors :: "unicode \<Rightarrow> PaymentData \<Rightarrow> exn + errors" where
  "PaymentSerializer_errors U d =
     and_then (required_field U ''number'' 8 (\<lambda>v. Inr None) (data_number d))
    (and_then (required_field U ''name'' 100 (\<lambda>v. Inr None) (data_name d))
    (and_then (required_field U ''year'' 4 (validate_year U) (data_year d))
    (and_then (required_field U ''month'' 2 (validate_month U) (data_month d))
              (required_field U ''code'' 4 (validate_code U) (data_code d)))))"

definition validated_data :: "unicode \<Rightarrow> PaymentData \<Rightarrow> card" where
  "validated_data U d =
     \<lparr>number = strip U (case_option [] id (data_number d)),
      name = strip U (case_option [] id (data_name d)),
      year = strip U (case_option [] id (data_year d)),
      month = strip U (case_option [] id (data_month d)),
      code = strip U (case_option [] id (data_code d))\<rparr>"

text \<open>
  \<open>PaymentSerializer.create\<close>: the order comes from \<open>self.context['order']\<close>, so a
  serializer built without that context raises \<open>KeyError\<close>.
\<close>

definition PaymentSerializer_create :: "Order option \<Rightarrow> card \<Rightarrow> Payment list \<Rightarrow> exn + Payment list" where
  "PaymentSerializer_create context_order c rows =
     (case context_order of
        None \<Rightarrow> Inl (KeyError ''order'')
      | Some order \<Rightarrow> Inr (rows @ [\<lparr>payment_order = pk order, payment_card = c\<rparr>]))"

text \<open>
  The inherited \<open>ModelSerializer.update\<close> on an \<open>Order\<close> instance: the five card
  attributes are set on the Python object and the object is saved. \<open>Order\<close> has no
  column of these names, so the saved row is the order as it was.
\<close>

definition PaymentSerializer_update :: "Order \<Rightarrow> card \<Rightarrow> Order" where
  "PaymentSerializer_update order c = order"

text \<open>
  The framework's \<open>BaseSerializer.save\<close>: \<open>update\<close> when the serializer was built
  with an instance (its first positional argument), \<open>create\<close> otherwise.
\<close>

definition PaymentSerializer_save ::
    "Order option \<Rightarrow> Order option \<Rightarrow> card \<Rightarrow> Order list \<times> Payment list \<Rightarrow> exn + Order list \<times> Payment list" where
  "PaymentSerializer_save instance context_order c db =
     (case instance of
        Some order \<Rightarrow>
          (case Order_save (PaymentSerializer_update order c) (fst db) of
             Inl e \<Rightarrow> Inl e
           | Inr rows \<Rightarrow> Inr (rows, snd db))
      | None \<Rightarrow>
          (case PaymentSerializer_create context_order c (snd db) of
             Inl e \<Rightarrow> Inl e
           | Inr rows \<Rightarrow> Inr (fst db, rows)))"

section \<open>Views (shopapp/views.py)\<close>

text \<open>
  A view returns the response it builds, or the exception that leaves it, together with
  the state as the view has written it up to that point.
\<close>

subsection \<open>OrderView.post: checkout\<close>

text \<open>One element of the posted list: a dict read at the keys \<open>'id'\<close> and \<open>'count'\<close>.\<close>

record line =
  line_id :: "nat option"
  line_count :: "int option"

text \<open>
  The loop over \<open>products_data\<close>. Each round reads the two keys, fetches the product
  and inserts one \<open>OrderItem\<close> row; \<open>quantity\<close> is a
  \<open>PositiveSmallIntegerField\<close>, whose column refuses a negative value. The rows
  inserted before an exception stay in the table that is returned with it.
\<close>

fun create_items :: "Product list \<Rightarrow> nat \<Rightarrow> line list \<Rightarrow> OrderItem list \<Rightarrow> exn option \<times> OrderItem list" where
  "create_items prods order_pk [] rows = (None, rows)"
| "create_items prods order_pk (product # rest) rows =
     (case line_id product of
        None \<Rightarrow> (Some (KeyError ''id''), rows)
      | Some pid \<Rightarrow>
          (case line_count product of
             None \<Rightarrow> (Some (KeyError ''count''), rows)
           | Some q \<Rightarrow>
               (case Product_get prods pid of
                  None \<Rightarrow> (Some (DoesNotExist ''Product''), rows)
                | Some p \<Rightarrow>
                    (if q < 0 then (Some (IntegrityError ''quantity''), rows)
                     else create_items prods order_pk rest
                            (rows @ [\<lparr>item_order = order_pk, item_product = product_pk p,
                                      quantity = q\<rparr>])))))"

text \<open>\<open>Cart(request)\<close>: the items of the session's cart, an empty list when it has none.\<close>

definition Cart :: "session \<Rightarrow> cart_item list" where
  "Cart ses = (case cart ses of None \<Rightarrow> [] | Some items \<Rightarrow> items)"

text \<open>
  The order of the checkout: the one that the session names under \<open>'order_id'\<close>, or
  else a new row for the profile of the requesting user. The result is the order with
  the table as it then is.
\<close>

definition order_of_checkout :: "state \<Rightarrow> user \<Rightarrow> exn + Order \<times> Order list" where
  "order_of_checkout s u =
     (case order_id (session s) of
        Some k \<Rightarrow>
          (case Order_get (orders s) k of
             None \<Rightarrow> Inl (DoesNotExist ''Order'')
           | Some order \<Rightarrow> Inr (order, orders s))
      | None \<Rightarrow>
          (case user_profile u of
             Inl e \<Rightarrow> Inl e
           | Inr p \<Rightarrow> Inr (Order_create (Some p) (orders s))))"

definition OrderView_post :: "state \<Rightarrow> user \<Rightarrow> line list \<Rightarrow> (exn + response) \<times> state" where
  "OrderView_post s u products_data =
     (let items = Cart (session s);
          s1 = s\<lparr>session := (session s)\<lparr>cart := Some items\<rparr>\<rparr>
      in case order_of_checkout s u of
           Inl e \<Rightarrow> (Inl e, s1)
         | Inr (order, rows) \<Rightarrow>
             (case create_items (products s) (pk order) products_data (order_items s) of
                (Some e, rows') \<Rightarrow> (Inl e, s1\<lparr>orders := rows, order_items := rows'\<rparr>)
              | (None, rows') \<Rightarrow>
                  (case get_cart_total items of
                     Inl e \<Rightarrow> (Inl e, s1\<lparr>orders := rows, order_items := rows'\<rparr>)
                   | Inr cost \<Rightarrow>
                       (let order' = order\<lparr>totalCost := cost, status := ''accepted''\<rparr>
                        in case Order_save order' rows of
                             Inl e \<Rightarrow> (Inl e, s1\<lparr>orders := rows, order_items := rows'\<rparr>)
                           | Inr saved \<Rightarrow>
                               (Inr (Response 201 (OrderId (pk order'))),
                                s1\<lparr>orders := saved, order_items := rows',
                                   session := \<lparr>cart = None, order_id = None\<rparr>\<rparr>)))))"

subsection \<open>OrderDetailView.post: confirmation\<close>

definition OrderDetailView_post ::
    "state \<Rightarrow> user \<Rightarrow> nat \<Rightarrow> Decimal OrderConfirmData \<Rightarrow> (exn + response) \<times> state" where
  "OrderDetailView_post s u k order_data =
     (if \<not> IsAuthenticated u then (Inl NotAuthenticated, s)
      else case Order_get (orders s) k of
             None \<Rightarrow> (Inr (Response 404 (Detail ''Order not found.'')), s)
           | Some order \<Rightarrow>
               (case user_profile u of
                  Inl e \<Rightarrow> (Inl e, s)
                | Inr p \<Rightarrow>
                    (if profile order \<noteq> Some p
                     then (Inl (PermissionDenied ''You do not have permission to update this order.''), s)
                     else if status order = ''paid''
                     then (Inr (Response 403 (Detail ''Paid orders cannot be updated.'')), s)
                     else (case OrderConfirmSerializer_is_valid (delivery_types s) order_data of
                             Inl e \<Rightarrow> (Inl e, s)
                           | Inr (Inl errs) \<Rightarrow> (Inr (Response 400 (Errors errs)), s)
                           | Inr (Inr d) \<Rightarrow>
                               (let saved = OrderConfirmSerializer_update order d
                                in case Order_save saved (orders s) of
                                     Inl e \<Rightarrow> (Inl e, s)
                                   | Inr rows \<Rightarrow>
                                       (case Order_save (saved\<lparr>status := ''confirmed''\<rparr>) rows of
                                          Inl e \<Rightarrow> (Inl e, s\<lparr>orders := rows\<rparr>)
                                        | Inr rows' \<Rightarrow>
                                            (Inr (Response 200 NoBody), s\<lparr>orders := rows'\<rparr>)))))))"

subsection \<open>PaymentView.post: payment\<close>

text \<open>
  The view builds \<open>PaymentSerializer(order, data=request.data)\<close>: the order is the
  serializer's instance, and no context is passed.
\<close>

definition PaymentView_post ::
    "unicode \<Rightarrow> state \<Rightarrow> user \<Rightarrow> nat \<Rightarrow> PaymentData \<Rightarrow> (exn + response) \<times> state" where
  "PaymentView_post U s u k request_data =
     (if \<not> IsAuthenticated u then (Inl NotAuthenticated, s)
      else case Order_get (orders s) k of
             None \<Rightarrow> (Inr (Response 404 (Detail ''Order not found.'')), s)
           | Some order \<Rightarrow>
               (case user_profile u of
                  Inl e \<Rightarrow> (Inl e, s)
                | Inr p \<Rightarrow>
                    (if profile order \<noteq> Some p
                     then (Inl (PermissionDenied
                             ''You do not have permission to confirm payment for this order.''), s)
                     else if status order = ''paid''
                     then (Inr (Response 403 (Detail ''Paid orders cannot be updated.'')), s)
                     else (case PaymentSerializer_errors U request_data of
                             Inl e \<Rightarrow> (Inl e, s)
                           | Inr (err # errs) \<Rightarrow> (Inr (Response 400 (Errors (err # errs))), s)
                           | Inr [] \<Rightarrow>
                               (case PaymentSerializer_save (Some order) None
                                       (validated_data U request_data) (orders s, payments s) of
                                  Inl e \<Rightarrow> (Inl e, s)
                                | Inr (rows, pays) \<Rightarrow>
                                    (let order' = (PaymentSerializer_update order
                                                     (validated_data U request_data))
                                                    \<lparr>status := ''paid''\<rparr>
                                     in case Order_save order' rows of
                                          Inl e \<Rightarrow> (Inl e, s\<lparr>orders := rows, payments := pays\<rparr>)
                                        | Inr rows' \<Rightarrow>
                                            (Inr (Response 200 NoBody),
                                             s\<lparr>orders := rows', payments := pays\<rparr>)))))))"

subsection \<open>From a view to the HTTP response\<close>

text \<open>
  What the frameworks do with an exception that leaves a view. \<open>PermissionDenied\<close> and
  \<open>NotAuthenticated\<close> become a 403 response with the message as detail. Any other
  exception becomes a 500 response, for which the session middleware does not save the
  session. The views open no transaction of their own: the writes made before the
  exception are undone only if the project runs every request in one
  (\<open>ATOMIC_REQUESTS\<close>, a setting that is not part of the sources at hand and is
  taken as the parameter \<open>atomic_requests\<close>; Django's default is \<open>False\<close>).
\<close>

definition rollback :: "bool \<Rightarrow> state \<Rightarrow> state \<Rightarrow> state" where
  "rollback atomic_requests s s' = (if atomic_requests then s\<lparr>session := session s'\<rparr> else s')"

definition respond :: "bool \<Rightarrow> state \<Rightarrow> (exn + response) \<times> state \<Rightarrow> response \<times> state" where
  "respond atomic_requests s r =
     (case r of
        (Inr resp, s') \<Rightarrow> (resp, s')
      | (Inl (PermissionDenied d), s') \<Rightarrow> (Response 403 (Detail d), rollback atomic_requests s s')
      | (Inl NotAuthenticated, s') \<Rightarrow>
          (Response 403 (Detail ''Authentication credentials were not provided.''),
           rollback atomic_requests s s')
      | (Inl e, s') \<Rightarrow>
          (Response 500 (ServerError e), (rollback atomic_requests s s')\<lparr>session := session s\<rparr>))"

text \<open>The three core operations, as requests: \<open>POST orders\<close>, \<open>POST order/<pk>\<close>, \<open>POST payment/<pk>\<close>.\<close>

definition checkout :: "bool \<Rightarrow> state \<Rightarrow> user \<Rightarrow> line list \<Rightarrow> response \<times> state" where
  "checkout atomic_requests s u products_data = respond atomic_requests s (OrderView_post s u products_data)"

definition confirmation ::
    "bool \<Rightarrow> state \<Rightarrow> user \<Rightarrow> nat \<Rightarrow> Decimal OrderConfirmData \<Rightarrow> response \<times> state" where
  "confirmation atomic_requests s u k order_data =
     respond atomic_requests s (OrderDetailView_post s u k order_data)"

definition payment ::
    "unicode \<Rightarrow> bool \<Rightarrow> state \<Rightarrow> user \<Rightarrow> nat \<Rightarrow> PaymentData \<Rightarrow> response \<times> state" where
  "payment U atomic_requests s u k request_data =
     respond atomic_requests s (PaymentView_post U s u k request_data)"

section \<open>Sequences of calls and the notions of the specification\<close>

text \<open>
  A sequence of \<open>Cart.add\<close> and \<open>Cart.remove\<close> calls, each made by its own request
  on the same session: an \<open>add\<close> that raises leaves the stored cart as it was.
\<close>

datatype cart_call = Add string int | Remove string int

fun call :: "(string \<Rightarrow> product_data option) \<Rightarrow> cart_item list \<Rightarrow> cart_call \<Rightarrow> cart_item list" where
  "call catalog items (Add pid q) = (case add catalog pid q items of Inl e \<Rightarrow> items | Inr items' \<Rightarrow> items')"
| "call catalog items (Remove pid q) = remove pid q items"

definition calls :: "(string \<Rightarrow> product_data option) \<Rightarrow> cart_call list \<Rightarrow> cart_item list \<Rightarrow> cart_item list" where
  "calls catalog cs items = foldl (call catalog) items cs"

text \<open>Every \<open>add\<close> of the sequence is called with a positive quantity.\<close>

definition adds_positive :: "cart_call list \<Rightarrow> bool" where
  "adds_positive cs = list_all (\<lambda>c. case c of Add pid q \<Rightarrow> 0 < q | Remove pid q \<Rightarrow> True) cs"

text \<open>The total in the words of the specification: the sum of price times count over the lines.\<close>

definition sum_of_lines :: "cart_item list \<Rightarrow> int" where
  "sum_of_lines items = (\<Sum>item\<leftarrow>items. price (product_data item) * count (product_data item))"

text \<open>
  The amounts of the lines, taken without their signs, add up to a number of hundredths
  of at most 28 digits: nothing that \<open>get_cart_total\<close> computes needs more digits
  than the \<open>Decimal\<close> context keeps.
\<close>

definition within_precision :: "cart_item list \<Rightarrow> bool" where
  "within_precision items =
     ((\<Sum>item\<leftarrow>items. \<bar>price (product_data item) * count (product_data item)\<bar>) < 10 ^ 28)"

text \<open>The cart invariants of the specification.\<close>

definition one_line_per_product :: "cart_item list \<Rightarrow> bool" where
  "one_line_per_product items = distinct (map product_id items)"

definition counts_positive :: "cart_item list \<Rightarrow> bool" where
  "counts_positive items = list_all (\<lambda>item. 0 < count (product_data item)) items"

text \<open>
  Notions for the lines of a checkout body: a line that carries both keys and a
  quantity that the \<open>quantity\<close> column takes; a line whose product is in the table;
  and the \<open>OrderItem\<close> row that the loop inserts for a line.
\<close>

definition well_formed :: "line \<Rightarrow> bool" where
  "well_formed l =
     (line_id l \<noteq> None \<and> (case line_count l of None \<Rightarrow> False | Some q \<Rightarrow> 0 \<le> q))"

definition product_exists :: "Product list \<Rightarrow> line \<Rightarrow> bool" where
  "product_exists prods l =
     (case line_id l of None \<Rightarrow> False | Some pid \<Rightarrow> Product_get prods pid \<noteq> None)"

definition line_item :: "nat \<Rightarrow> line \<Rightarrow> OrderItem" where
  "line_item k l =
     \<lparr>item_order = k, item_product = case_option 0 id (line_id l),
      quantity = case_option 0 id (line_count l)\<rparr>"

text \<open>
  The position of a status on the path accepted, confirmed, paid; any other text (the
  blank status of a row that checkout has created and not yet stamped) comes first.
\<close>

definition status_rank :: "string \<Rightarrow> nat" where
  "status_rank st =
     (if st = ''paid'' then 3 else if st = ''confirmed'' then 2
      else if st = ''accepted'' then 1 else 0)"

text \<open>The core operations and their sequences.\<close>

datatype operation =
    Checkout user "line list"
  | Confirm user nat "Decimal OrderConfirmData"
  | Pay user nat PaymentData

fun step :: "unicode \<Rightarrow> bool \<Rightarrow> state \<Rightarrow> operation \<Rightarrow> state" where
  "step U atomic_requests s (Checkout u products_data) = snd (checkout atomic_requests s u products_data)"
| "step U atomic_requests s (Confirm u k order_data) = snd (confirmation atomic_requests s u k order_data)"
| "step U atomic_requests s (Pay u k request_data) = snd (payment U atomic_requests s u k request_data)"

definition run :: "unicode \<Rightarrow> bool \<Rightarrow> operation list \<Rightarrow> state \<Rightarrow> state" where
  "run U atomic_requests ops s = foldl (step U atomic_requests) s ops"

text \<open>
  Non-negative amounts: the totalCost of every order, the fee of every pricing rule, the
  total of the session cart, if \<open>get_cart_total\<close> computes one, and the subtotal that
  a confirmation body carries, if it carries one.
\<close>

definition totals_nonnegative :: "state \<Rightarrow> bool" where
  "totals_nonnegative s = list_all (\<lambda>order. 0 \<le> totalCost order) (orders s)"

definition fees_nonnegative :: "state \<Rightarrow> bool" where
  "fees_nonnegative s = list_all (\<lambda>rule. 0 \<le> delivery_cost rule) (delivery_types s)"

definition cart_total_nonnegative :: "state \<Rightarrow> bool" where
  "cart_total_nonnegative s =
     (case get_cart_total (Cart (session s)) of Inl e \<Rightarrow> True | Inr cost \<Rightarrow> 0 \<le> cost)"

definition subtotal_nonnegative :: "operation \<Rightarrow> bool" where
  "subtotal_nonnegative op =
     (case op of
        Confirm u k d \<Rightarrow>
          (case data_totalCost d of None \<Rightarrow> True | Some subtotal \<Rightarrow> 0 \<le> coefficient subtotal)
      | _ \<Rightarrow> True)"








text \<open>
  A table that has the rows of the ASCII code points: the ten digits with their values,
  and the white space.
\<close>

definition has_ascii_rows :: "unicode \<Rightarrow> bool" where
  "has_ascii_rows U =
     (\<forall>c<128. digit U c = (48 \<le> c \<and> c \<le> 57)
            \<and> decimal_value U c = (if 48 \<le> c \<and> c \<le> 57 then Some (c - 48) else None)
            \<and> space U c = (c \<in> {9, 10, 11, 12, 13, 28, 29, 30, 31, 32}))"

section \<open>Example data\<close>

text \<open>The two products of cart/tests.py, as the catalog serves them.\<close>

definition test_catalog :: "string \<Rightarrow> product_data option" where
  "test_catalog pid =
     (if pid = ''1'' then Some \<lparr>title = ''Product 1'', price = 1000, count = 100\<rparr>
      else if pid = ''2'' then Some \<lparr>title = ''Product 2'', price = 2000, count = 50\<rparr>
      else None)"

text \<open>
  The fixtures of shopapp/test_views.py: the order of \<open>PaymentViewTests\<close> (owned by
  profile 1, 50.00, confirmed), the two products of \<open>OrderViewTest\<close>, the pricing rule
  of \<open>OrderDetailViewTests\<close>, and the request bodies of \<open>test_post_order_details\<close> and
  \<open>test_post_payment_details\<close>.
\<close>

definition test_order :: Order where
  "test_order = \<lparr>pk = 1, profile = Some 1, deliveryType = [], paymentType = [],
                  totalCost = 5000, status = ''confirmed'', city = [], address = []\<rparr>"

definition test_state :: state where
  "test_state =
     \<lparr>products = [\<lparr>product_pk = 1, product_price = 1000\<rparr>, \<lparr>product_pk = 2, product_price = 3000\<rparr>],
      orders = [test_order],
      order_items = [],
      delivery_types = [\<lparr>dtype = ''free'', min_cost = 100000, delivery_cost = 20000\<rparr>],
      payments = [],
      session = \<lparr>cart = None, order_id = None\<rparr>\<rparr>"

definition test_order_data :: "Decimal OrderConfirmData" where
  "test_order_data =
     \<lparr>data_deliveryType = Some ''free'', data_paymentType = Some ''online'',
      data_totalCost = Some (Decimal 500 0), data_status = Some ''accepted'',
      data_city = Some ''London'', data_address = Some ''221b, Bakers str.''\<rparr>"

text \<open>
  The code points of an ASCII literal, and the rows of the Unicode tables for the code
  points below 256: besides the ASCII digits, \<open>str.isdigit\<close> accepts the superscripts
  two, three and one (178, 179, 185), which \<open>int\<close> does not read; \<open>str.strip\<close>
  also removes the next-line and the no-break space (133, 160).
\<close>

definition code_points :: "string \<Rightarrow> str" where
  "code_points v = map of_char v"

definition latin1_rows :: unicode where
  "latin1_rows =
     \<lparr>digit = (\<lambda>c. (48 \<le> c \<and> c \<le> 57) \<or> c = 178 \<or> c = 179 \<or> c = 185),
      decimal_value = (\<lambda>c. if 48 \<le> c \<and> c \<le> 57 then Some (c - 48) else None),
      space = (\<lambda>c. c \<in> {9, 10, 11, 12, 13, 28, 29, 30, 31, 32, 133, 160})\<rparr>"

definition test_payment_data :: PaymentData where
  "test_payment_data =
     \<lparr>data_number = Some (code_points ''12345678''), data_name = Some (code_points ''Annoying Orange''),
      data_year = Some (code_points ''2025''), data_month = Some (code_points ''02''),
      data_code = Some (code_points ''123'')\<rparr>"

text \<open>The same state once the order is paid.\<close>

definition paid_state :: state where
  "paid_state = test_state\<lparr>orders := [test_order\<lparr>status := ''paid''\<rparr>]\<rparr>"

text \<open>
  The example of the specification and of \<open>OrderConfirmSerializerTests\<close>: an accepted
  order, free delivery from 2000.00 on, a fee of 200.00, and a body with a given subtotal.
\<close>

definition spec_state :: state where
  "spec_state = test_state
     \<lparr>orders := [test_order\<lparr>status := ''accepted''\<rparr>],
      delivery_types := [\<lparr>dtype = ''free'', min_cost = 200000, delivery_cost = 20000\<rparr>]\<rparr>"

definition spec_order_data :: "Decimal \<Rightarrow> Decimal OrderConfirmData" where
  "spec_order_data subtotal = test_order_data\<lparr>data_totalCost := Some subtotal, data_status := None\<rparr>"

text \<open>
  The checkout of \<open>test_post_and_get_orders\<close>: no order yet, a cart with two of the
  first product and one of the second, and the posted lines; and a body whose second
  line names a product that is not in the table.
\<close>

definition test_cart :: "cart_item list" where
  "test_cart =
     [\<lparr>product_id = ''1'', product_data = \<lparr>title = ''Test product 1'', price = 1000, count = 2\<rparr>\<rparr>,
      \<lparr>product_id = ''2'', product_data = \<lparr>title = ''Test product 2'', price = 3000, count = 1\<rparr>\<rparr>]"

definition cart_state :: state where
  "cart_state = test_state\<lparr>orders := [], session := \<lparr>cart = Some test_cart, order_id = None\<rparr>\<rparr>"

definition test_lines :: "line list" where
  "test_lines = [\<lparr>line_id = Some 1, line_count = Some 2\<rparr>, \<lparr>line_id = Some 2, line_count = Some 1\<rparr>]"


section \<open>Decimal arithmetic\<close>

declare excess.simps [simp del] ndigits.simps [simp del]

lemma excess_small: "n < 10 ^ 28 \<Longrightarrow> excess n = 0"
  by (simp add: excess.simps[of n])

lemma round_half_even_0: "round_half_even n 0 = n"
  by (simp add: round_half_even_def)

text \<open>A result of at most 28 digits is kept as it is.\<close>

lemma context_round_exact: "\<bar>v\<bar> < 10 ^ 28 \<Longrightarrow> context_round v = Inr v"
  by (simp add: context_round_def excess_small round_half_even_0 Let_def mult_sgn_abs)

lemma round_half_even_nonneg: "0 \<le> n \<Longrightarrow> 0 \<le> round_half_even n k"
  by (simp add: round_half_even_def Let_def pos_imp_zdiv_nonneg_iff)

lemma context_round_nonneg: "0 \<le> v \<Longrightarrow> context_round v = Inr r \<Longrightarrow> 0 \<le> r"
  using round_half_even_nonneg[of "\<bar>v\<bar>" "excess \<bar>v\<bar>"]
  by (auto simp: context_round_def Let_def sgn_if split: if_splits)

text \<open>Rounding a number of more than 28 digits leaves a number of more than 28 digits.\<close>

lemma excess_lower: "10 ^ 28 \<le> n \<Longrightarrow> 10 ^ 27 * 10 ^ excess n \<le> n"
proof (induction n rule: excess.induct)
  case (1 n)
  show ?case
  proof (cases "n div 10 < 10 ^ 28")
    case True
    then have "excess n = 1"
      using "1.prems" by (simp add: excess.simps[of n] excess_small)
    then show ?thesis using "1.prems" by simp
  next
    case False
    then have ih: "10 ^ 27 * 10 ^ excess (n div 10) \<le> n div 10"
      using "1.IH" "1.prems" by simp
    have "excess n = Suc (excess (n div 10))"
      using "1.prems" by (simp add: excess.simps[of n])
    moreover have "10 * (n div 10) \<le> n"
      by presburger
    ultimately show ?thesis using ih by simp
  qed
qed

lemma round_half_even_lower: "0 \<le> n \<Longrightarrow> (n div 10 ^ k) * 10 ^ k \<le> round_half_even n k"
  by (simp add: round_half_even_def Let_def distrib_right)

lemma context_round_large:
  assumes "10 ^ 28 \<le> \<bar>v\<bar>" and "context_round v = Inr r"
  shows "10 ^ 28 \<le> \<bar>r\<bar>"
proof -
  let ?n = "\<bar>v\<bar>" and ?k = "excess \<bar>v\<bar>"
  have k: "0 < ?k" using assms(1) by (simp add: excess.simps[of ?n])
  have "10 ^ 27 * 10 ^ ?k \<le> ?n" using assms(1) by (rule excess_lower)
  then have "(10 ^ 27 * 10 ^ ?k) div 10 ^ ?k \<le> ?n div 10 ^ ?k"
    by (rule zdiv_mono1) simp
  then have q: "10 ^ 27 \<le> ?n div 10 ^ ?k"
    by simp
  have p: "(10::int) \<le> 10 ^ ?k"
    using k by (cases ?k) simp_all
  have "(10::int) ^ 27 * 10 \<le> (?n div 10 ^ ?k) * 10 ^ ?k"
    using q p by (intro mult_mono) simp_all
  then have "10 ^ 28 \<le> (?n div 10 ^ ?k) * 10 ^ ?k"
    by simp
  then have "10 ^ 28 \<le> round_half_even ?n ?k"
    using round_half_even_lower[of ?n ?k] by simp
  moreover have "\<bar>r\<bar> = round_half_even ?n ?k"
    using assms round_half_even_nonneg[of ?n ?k]
    by (auto simp: context_round_def Let_def abs_mult sgn_if split: if_splits)
  ultimately show ?thesis by simp
qed

text \<open>Within the precision, the loop of \<open>get_cart_total\<close> computes the exact sum.\<close>

lemma total_loop_exact:
  "\<bar>acc\<bar> + (\<Sum>item\<leftarrow>items. \<bar>price (product_data item) * count (product_data item)\<bar>) < 10 ^ 28 \<Longrightarrow>
   total_loop acc items
     = Inr (acc + (\<Sum>item\<leftarrow>items. price (product_data item) * count (product_data item)))"
proof (induction items arbitrary: acc)
  case Nil
  then show ?case by simp
next
  case (Cons item items)
  let ?a = "price (product_data item) * count (product_data item)"
  let ?rest = "\<Sum>item\<leftarrow>items. \<bar>price (product_data item) * count (product_data item)\<bar>"
  have rest: "0 \<le> ?rest" by (rule sum_list_nonneg) auto
  have b: "\<bar>acc\<bar> + \<bar>?a\<bar> + ?rest < 10 ^ 28" using Cons.prems by simp
  have 1: "decimal_mul (price (product_data item)) (count (product_data item)) = Inr ?a"
    unfolding decimal_mul_def using b rest by (intro context_round_exact) linarith
  have 2: "decimal_add acc ?a = Inr (acc + ?a)"
    unfolding decimal_add_def using b rest by (intro context_round_exact) linarith
  have "\<bar>acc + ?a\<bar> + ?rest < 10 ^ 28" using b by linarith
  from Cons.IH[OF this] show ?case by (simp add: 1 2 add.assoc)
qed

lemma get_cart_total_sum: "within_precision items \<Longrightarrow> get_cart_total items = Inr (sum_of_lines items)"
  using total_loop_exact[of 0 items]
  by (simp add: get_cart_total_def within_precision_def sum_of_lines_def)

lemma get_cart_total_empty: "get_cart_total [] = Inr 0"
  by (simp add: get_cart_total_def)

section \<open>The cart: invariants and total\<close>

declare remove_from.simps [simp del]


lemma add_existing_None: "add_existing pid q items = None \<longleftrightarrow> pid \<notin> set (map product_id items)"
  by (induction items) auto

lemma add_existing_ids:
  "add_existing pid q items = Some items' \<Longrightarrow> map product_id items' = map product_id items"
  by (induction items arbitrary: items') (auto split: if_splits)

lemma add_existing_positive:
  "add_existing pid q items = Some items' \<Longrightarrow> 0 < q \<Longrightarrow> counts_positive items \<Longrightarrow>
   counts_positive items'"
  by (induction items arbitrary: items') (auto simp: counts_positive_def split: if_splits)

lemma add_one_line:
  "one_line_per_product items \<Longrightarrow> add catalog pid q items = Inr items' \<Longrightarrow>
   one_line_per_product items'"
  by (auto simp: add_def one_line_per_product_def add_existing_None add_existing_ids
           split: option.splits)

lemma add_positive:
  "counts_positive items \<Longrightarrow> 0 < q \<Longrightarrow> add catalog pid q items = Inr items' \<Longrightarrow>
   counts_positive items'"
  by (auto simp: add_def add_existing_positive split: option.splits)
     (simp add: counts_positive_def)

lemma ids_update:
  "i < length items \<Longrightarrow> product_id item' = product_id (items ! i) \<Longrightarrow>
   map product_id (items[i := item']) = map product_id items"
  by (simp add: map_update list_update_same_conv)

lemma ids_remove1:
  "distinct (map product_id items) \<Longrightarrow> distinct (map product_id (remove1 x items))"
  by (auto simp: distinct_map intro: inj_on_subset)

text \<open>
  The loop of \<open>Cart.remove\<close> keeps the product ids distinct, whatever it skips after
  a deletion.
\<close>

lemma remove_from_one_line:
  "distinct (map product_id items) \<Longrightarrow> distinct (map product_id (remove_from pid q items i))"
proof (induction pid q items i rule: remove_from.induct)
  case (1 pid q items i)
  show ?case
  proof (cases "i < length items")
    case False
    then show ?thesis using "1.prems" by (simp add: remove_from.simps[of pid q items i])
  next
    case True
    let ?item = "items ! i"
    let ?item' = "?item\<lparr>product_data := (product_data ?item)\<lparr>count := count (product_data ?item) - q\<rparr>\<rparr>"
    have upd: "distinct (map product_id (items[i := ?item']))"
      using True "1.prems" by (simp add: ids_update)
    show ?thesis
    proof (cases "product_id ?item = pid")
      case no: False
      then show ?thesis using True "1.IH"(3) "1.prems"
        by (simp add: remove_from.simps[of pid q items i])
    next
      case yes: True
      show ?thesis
      proof (cases "count (product_data ?item') \<le> 0")
        case True
        with \<open>i < length items\<close> yes "1.IH"(1)[OF \<open>i < length items\<close> refl yes refl refl True] upd
        show ?thesis by (simp add: ids_remove1 Let_def remove_from.simps[of pid q items i])
      next
        case False
        with \<open>i < length items\<close> yes "1.IH"(2)[OF \<open>i < length items\<close> refl yes refl refl False] upd
        show ?thesis by (simp add: Let_def remove_from.simps[of pid q items i])
      qed
    qed
  qed
qed

text \<open>
  On a cart with one line per product the loop keeps every count positive: the line it
  decrements to zero or below is the one that \<open>list.remove\<close> deletes.
\<close>

lemma remove_from_positive:
  "distinct (map product_id items) \<Longrightarrow> counts_positive items \<Longrightarrow>
   counts_positive (remove_from pid q items i)"
proof (induction pid q items i rule: remove_from.induct)
  case (1 pid q items i)
  show ?case
  proof (cases "i < length items")
    case False
    then show ?thesis using "1.prems" by (simp add: remove_from.simps[of pid q items i])
  next
    case True
    let ?item = "items ! i"
    let ?item' = "?item\<lparr>product_data := (product_data ?item)\<lparr>count := count (product_data ?item) - q\<rparr>\<rparr>"
    let ?items' = "items[i := ?item']"
    have upd: "distinct (map product_id ?items')"
      using True "1.prems"(1) by (simp add: ids_update)
    then have dist: "distinct ?items'"
      by (simp add: distinct_map)
    show ?thesis
    proof (cases "product_id ?item = pid")
      case no: False
      then show ?thesis using True "1.IH"(3) "1.prems"
        by (simp add: remove_from.simps[of pid q items i])
    next
      case yes: True
      show ?thesis
      proof (cases "count (product_data ?item') \<le> 0")
        case le: True
        have "set (remove1 ?item' ?items') \<subseteq> set items"
          using dist set_update_subset_insert[of items i ?item'] by auto
        then have pos: "counts_positive (remove1 ?item' ?items')"
          using "1.prems"(2) by (auto simp: counts_positive_def list_all_iff)
        have "counts_positive (remove_from pid q (remove1 ?item' ?items') (Suc i))"
          using "1.IH"(1)[OF True refl yes refl refl le] upd pos by (simp add: ids_remove1)
        then show ?thesis using True yes le
          by (simp add: Let_def remove_from.simps[of pid q items i])
      next
        case gt: False
        have "set ?items' \<subseteq> insert ?item' (set items)"
          by (rule set_update_subset_insert)
        then have pos: "counts_positive ?items'"
          using "1.prems"(2) gt by (auto simp: counts_positive_def list_all_iff)
        have "counts_positive (remove_from pid q ?items' (Suc i))"
          using "1.IH"(2)[OF True refl yes refl refl gt] upd pos by simp
        then show ?thesis using True yes gt
          by (simp add: Let_def remove_from.simps[of pid q items i])
      qed
    qed
  qed
qed

lemma call_one_line: "one_line_per_product items \<Longrightarrow> one_line_per_product (call catalog items c)"
  by (cases c) (auto simp: remove_def one_line_per_product_def remove_from_one_line
        dest: add_one_line[unfolded one_line_per_product_def] split: sum.splits)

lemma calls_one_line:
  "one_line_per_product items \<Longrightarrow> one_line_per_product (calls catalog cs items)"
  unfolding calls_def by (induction cs arbitrary: items) (simp_all add: call_one_line)

lemma call_positive:
  "one_line_per_product items \<Longrightarrow> counts_positive items \<Longrightarrow> adds_positive [c] \<Longrightarrow>
   counts_positive (call catalog items c)"
  by (cases c) (auto simp: remove_def one_line_per_product_def adds_positive_def remove_from_positive
        dest: add_positive split: sum.splits)

lemma calls_positive:
  "one_line_per_product items \<Longrightarrow> counts_positive items \<Longrightarrow> adds_positive cs \<Longrightarrow>
   counts_positive (calls catalog cs items)"
  unfolding calls_def
proof (induction cs arbitrary: items)
  case Nil
  then show ?case by simp
next
  case (Cons c cs)
  have "adds_positive [c]" "adds_positive cs"
    using Cons.prems(3) by (simp_all add: adds_positive_def)
  then show ?case
    using Cons.IH[of "call catalog items c"] Cons.prems(1,2)
    by (simp add: call_one_line call_positive)
qed

text \<open>
  C5, as stated, fails twice. \<open>Cart.add\<close> stores the quantity it is given, so adding
  a product with quantity 0 to an empty cart leaves a line whose count is not positive.
  And \<open>get_cart_total\<close> computes in \<open>Decimal\<close> arithmetic, which keeps 28 digits:
  for one line of 10.00 with count \<open>10^28 + 1\<close> it returns \<open>10^29\<close>, while price times
  count is \<open>10^29 + 10\<close>.
\<close>

theorem cart_counts_counterexample:
  "\<not> counts_positive (calls test_catalog [Add ''1'' 0] [])
   \<and> get_cart_total (calls test_catalog [Add ''1'' (10 ^ 28 + 1)] []) = Inr (10 ^ 31)
   \<and> sum_of_lines (calls test_catalog [Add ''1'' (10 ^ 28 + 1)] []) = 10 ^ 31 + 1000"
proof -
  have e: "excess (10 ^ 31 + 1000) = 4" "excess (10 ^ 31) = 4"
    by (simp_all add: excess.simps)
  have r: "context_round (10 ^ 31 + 1000) = Inr (10 ^ 31)" "context_round (10 ^ 31) = Inr (10 ^ 31)"
    using e by (simp_all add: context_round_def round_half_even_def Let_def)
  show ?thesis
    using r
    by (simp add: calls_def add_def test_catalog_def counts_positive_def get_cart_total_def
          decimal_mul_def decimal_add_def sum_of_lines_def)
qed

text \<open>
  C5, amended: after every sequence of \<open>add\<close> and \<open>remove\<close> calls on a fresh cart
  in which every \<open>add\<close> is given a positive quantity, the cart holds at most one
  line per distinct product id and every count is positive; and when the amounts of its
  lines add up to at most 28 digits, the total that \<open>get_cart_total\<close> computes is the
  sum over the lines of snapshot price times count.
\<close>

theorem cart_invariants:
  assumes "adds_positive cs"
  shows "one_line_per_product (calls catalog cs [])
       \<and> counts_positive (calls catalog cs [])
       \<and> (within_precision (calls catalog cs []) \<longrightarrow>
            get_cart_total (calls catalog cs []) = Inr (sum_of_lines (calls catalog cs [])))"
proof -
  have start: "one_line_per_product []" "counts_positive []"
    by (simp_all add: one_line_per_product_def counts_positive_def)
  show ?thesis
    using calls_one_line[OF start(1)] calls_positive[OF start assms]
    by (simp add: get_cart_total_sum)
qed

theorem cart_invariants_witness:
  "adds_positive [Add ''1'' 2, Add ''2'' 1, Remove ''1'' 1, Remove ''1'' 1]
   \<and> within_precision (calls test_catalog [Add ''1'' 2, Add ''2'' 1, Remove ''1'' 1, Remove ''1'' 1] [])
   \<and> one_line_per_product (calls test_catalog [Add ''1'' 2, Add ''2'' 1, Remove ''1'' 1, Remove ''1'' 1] [])
   \<and> counts_positive (calls test_catalog [Add ''1'' 2, Add ''2'' 1, Remove ''1'' 1, Remove ''1'' 1] [])
   \<and> get_cart_total (calls test_catalog [Add ''1'' 2, Add ''2'' 1, Remove ''1'' 1, Remove ''1'' 1] [])
       = Inr 2000"
proof -
  have h: "adds_positive [Add ''1'' 2, Add ''2'' 1, Remove ''1'' 1, Remove ''1'' 1]"
    by (simp add: adds_positive_def)
  have c: "calls test_catalog [Add ''1'' 2, Add ''2'' 1, Remove ''1'' 1, Remove ''1'' 1] []
             = [\<lparr>product_id = ''2'', product_data = \<lparr>title = ''Product 2'', price = 2000, count = 1\<rparr>\<rparr>]"
    by (simp add: calls_def add_def remove_def remove_from.simps test_catalog_def)
  have p: "within_precision (calls test_catalog [Add ''1'' 2, Add ''2'' 1, Remove ''1'' 1, Remove ''1'' 1] [])"
    unfolding c by (simp add: within_precision_def)
  have v: "sum_of_lines (calls test_catalog [Add ''1'' 2, Add ''2'' 1, Remove ''1'' 1, Remove ''1'' 1] []) = 2000"
    unfolding c by (simp add: sum_of_lines_def)
  show ?thesis
    using h p v cart_invariants[OF h, of test_catalog] by simp
qed

section \<open>The object-relational operations\<close>

lemma rollback_same: "rollback a s s = s"
  by (simp add: rollback_def)

lemma Order_get_pk: "Order_get rows k = Some order \<Longrightarrow> pk order = k"
  by (auto simp: Order_get_def dest: find_Some_iff[THEN iffD1])

lemma Order_get_mem: "Order_get rows k = Some order \<Longrightarrow> order \<in> set rows"
  by (auto simp: Order_get_def find_Some_iff)

lemma Order_get_write_same:
  "Order_get rows (pk order) = Some r \<Longrightarrow> Order_get (write_row order rows) (pk order) = Some order"
  unfolding Order_get_def write_row_def by (induction rows) (auto split: if_splits)

lemma Order_get_write_other:
  "k \<noteq> pk order \<Longrightarrow> Order_get (write_row order rows) k = Order_get rows k"
  unfolding Order_get_def write_row_def by (induction rows) auto

lemma Order_save_fits:
  "\<bar>totalCost order\<bar> < 10 ^ 13 \<Longrightarrow> Order_save order rows = Inr (write_row order rows)"
  by (simp add: Order_save_def)

lemma Order_save_Inr:
  "Order_save order rows = Inr rows' \<Longrightarrow> rows' = write_row order rows \<and> \<bar>totalCost order\<bar> < 10 ^ 13"
  by (simp add: Order_save_def split: if_splits)

section \<open>The guards of confirmation and payment\<close>

lemma confirmation_not_owner:
  assumes "Order_get (orders s) k = Some order" and "profile order \<noteq> Some p"
  shows "confirmation a s (User (Some p)) k order_data =
           (Response 403 (Detail ''You do not have permission to update this order.''), s)"
  using assms
  by (simp add: confirmation_def OrderDetailView_post_def IsAuthenticated_def user_profile_def
        respond_def rollback_same)

lemma payment_not_owner:
  assumes "Order_get (orders s) k = Some order" and "profile order \<noteq> Some p"
  shows "payment U a s (User (Some p)) k request_data =
           (Response 403 (Detail ''You do not have permission to confirm payment for this order.''), s)"
  using assms
  by (simp add: payment_def PaymentView_post_def IsAuthenticated_def user_profile_def
        respond_def rollback_same)

text \<open>
  C10: for every existing order and every authenticated requester whose profile is not
  the order's owning profile, confirmation and payment both answer 403 Forbidden (the
  order is found, so not 404), whatever the payload, and the state, the order with it, is
  left as it was.
\<close>

theorem non_owner_forbidden:
  assumes "Order_get (orders s) k = Some order" and "profile order \<noteq> Some p"
  shows "status_code (fst (confirmation a s (User (Some p)) k order_data)) = 403
       \<and> snd (confirmation a s (User (Some p)) k order_data) = s
       \<and> status_code (fst (payment U a s (User (Some p)) k request_data)) = 403
       \<and> snd (payment U a s (User (Some p)) k request_data) = s"
  by (simp add: confirmation_not_owner[OF assms] payment_not_owner[OF assms])

theorem non_owner_forbidden_witness:
  "Order_get (orders test_state) 1 = Some test_order \<and> profile test_order \<noteq> Some 2
   \<and> status_code (fst (confirmation False test_state (User (Some 2)) 1 test_order_data)) = 403
   \<and> snd (confirmation False test_state (User (Some 2)) 1 test_order_data) = test_state
   \<and> status_code (fst (payment latin1_rows False test_state (User (Some 2)) 1 test_payment_data)) = 403
   \<and> snd (payment latin1_rows False test_state (User (Some 2)) 1 test_payment_data) = test_state"
proof -
  have h1: "Order_get (orders test_state) 1 = Some test_order"
    by (simp add: test_state_def test_order_def Order_get_def)
  have h2: "profile test_order \<noteq> Some 2"
    by (simp add: test_order_def)
  show ?thesis
    using h1 h2
      non_owner_forbidden[OF h1 h2, of False test_order_data latin1_rows test_payment_data]
    by simp
qed

lemma confirmation_paid_state:
  assumes "Order_get (orders s) k = Some order" and "status order = ''paid''"
  shows "snd (confirmation a s u k order_data) = s"
  using assms
  by (cases u; simp add: confirmation_def OrderDetailView_post_def IsAuthenticated_def
        user_profile_def respond_def rollback_same split: option.splits)

lemma payment_paid_state:
  assumes "Order_get (orders s) k = Some order" and "status order = ''paid''"
  shows "snd (payment U a s u k request_data) = s"
  using assms
  by (cases u; simp add: payment_def PaymentView_post_def IsAuthenticated_def
        user_profile_def respond_def rollback_same split: option.splits)

lemma confirmation_paid_owner:
  assumes "Order_get (orders s) k = Some order" and "status order = ''paid''"
      and "profile order = Some p"
  shows "fst (confirmation a s (User (Some p)) k order_data) =
           Response 403 (Detail ''Paid orders cannot be updated.'')"
  using assms
  by (simp add: confirmation_def OrderDetailView_post_def IsAuthenticated_def
        user_profile_def respond_def)

lemma payment_paid_owner:
  assumes "Order_get (orders s) k = Some order" and "status order = ''paid''"
      and "profile order = Some p"
  shows "fst (payment U a s (User (Some p)) k request_data) =
           Response 403 (Detail ''Paid orders cannot be updated.'')"
  using assms
  by (simp add: payment_def PaymentView_post_def IsAuthenticated_def
        user_profile_def respond_def)

text \<open>
  C4, as stated, fails: the ownership guard comes before the paid guard, so a payment
  attempt on a paid order by a requester who does not own it is answered with the
  permission message, not with the detail "Paid orders cannot be updated."
\<close>

theorem paid_detail_counterexample:
  "Order_get (orders paid_state) 1 = Some (test_order\<lparr>status := ''paid''\<rparr>)
   \<and> fst (payment latin1_rows False paid_state (User (Some 2)) 1 test_payment_data)
       = Response 403 (Detail ''You do not have permission to confirm payment for this order.'')
   \<and> fst (payment latin1_rows False paid_state (User (Some 2)) 1 test_payment_data)
       \<noteq> Response 403 (Detail ''Paid orders cannot be updated.'')"
  by (simp add: paid_state_def test_state_def test_order_def Order_get_def payment_def
        PaymentView_post_def IsAuthenticated_def user_profile_def respond_def rollback_def)

text \<open>
  C4, amended: for every order whose status is paid, every confirmation or payment
  attempt, by whichever requester and with whichever payload, leaves the state (the
  order's fields, its items and the payments) unchanged; an attempt made by the order's
  owner is answered 403 Forbidden with the detail "Paid orders cannot be updated."
\<close>

theorem paid_order_rejected:
  assumes "Order_get (orders s) k = Some order" and "status order = ''paid''"
  shows "snd (confirmation a s u k order_data) = s
       \<and> snd (payment U a s u k request_data) = s
       \<and> (profile order = Some p \<longrightarrow>
            fst (confirmation a s (User (Some p)) k order_data)
              = Response 403 (Detail ''Paid orders cannot be updated.'')
          \<and> fst (payment U a s (User (Some p)) k request_data)
              = Response 403 (Detail ''Paid orders cannot be updated.''))"
  using confirmation_paid_state[OF assms] payment_paid_state[OF assms]
        confirmation_paid_owner[OF assms] payment_paid_owner[OF assms]
  by simp

theorem paid_order_rejected_witness:
  "Order_get (orders paid_state) 1 = Some (test_order\<lparr>status := ''paid''\<rparr>)
   \<and> status (test_order\<lparr>status := ''paid''\<rparr>) = ''paid''
   \<and> profile (test_order\<lparr>status := ''paid''\<rparr>) = Some 1
   \<and> snd (confirmation False paid_state (User (Some 1)) 1 test_order_data) = paid_state
   \<and> snd (payment latin1_rows False paid_state (User (Some 1)) 1 test_payment_data) = paid_state
   \<and> fst (confirmation False paid_state (User (Some 1)) 1 test_order_data)
       = Response 403 (Detail ''Paid orders cannot be updated.'')
   \<and> fst (payment latin1_rows False paid_state (User (Some 1)) 1 test_payment_data)
       = Response 403 (Detail ''Paid orders cannot be updated.'')"
proof -
  have h1: "Order_get (orders paid_state) 1 = Some (test_order\<lparr>status := ''paid''\<rparr>)"
    by (simp add: paid_state_def test_state_def test_order_def Order_get_def)
  have h2: "status (test_order\<lparr>status := ''paid''\<rparr>) = ''paid''"
    by simp
  have h3: "profile (test_order\<lparr>status := ''paid''\<rparr>) = Some 1"
    by (simp add: test_order_def)
  show ?thesis
    using h1 h2 h3
      paid_order_rejected[OF h1 h2, where a = False and u = "User (Some 1)"
        and order_data = test_order_data and U = latin1_rows
        and request_data = test_payment_data and p = 1]
    by simp
qed

section \<open>Payment\<close>

text \<open>On ASCII text every table with the ASCII rows reads the same.\<close>

lemma ascii_rows:
  assumes "has_ascii_rows U" and "c < 128"
  shows "digit U c = (48 \<le> c \<and> c \<le> 57)"
    and "decimal_value U c = (if 48 \<le> c \<and> c \<le> 57 then Some (c - 48) else None)"
    and "space U c = (c \<in> {9, 10, 11, 12, 13, 28, 29, 30, 31, 32})"
  using assms by (simp_all add: has_ascii_rows_def)

lemma latin1_has_ascii_rows: "has_ascii_rows latin1_rows"
  by (auto simp: has_ascii_rows_def latin1_rows_def)

lemma test_payment_data_valid:
  assumes "has_ascii_rows U"
  shows "PaymentSerializer_errors U test_payment_data = Inr []"
  by (simp add: PaymentSerializer_errors_def required_field_def text_field_def strip_def
        and_then_def validate_year_def validate_month_def validate_code_def isdigit_def
        py_int_def code_points_def test_payment_data_def ascii_rows[OF assms] Let_def)

lemma respond_payments:
  "payments s' = payments s \<Longrightarrow> payments (snd (respond a s (r, s'))) = payments s"
proof (cases r)
  case (Inl e)
  assume "payments s' = payments s"
  then show ?thesis using Inl by (cases e) (simp_all add: respond_def rollback_def)
next
  case (Inr resp)
  assume "payments s' = payments s"
  then show ?thesis using Inr by (simp add: respond_def)
qed

lemma PaymentView_post_payments: "payments (snd (PaymentView_post U s u k request_data)) = payments s"
  by (auto simp: PaymentView_post_def PaymentSerializer_save_def Let_def
        split: option.splits sum.splits list.splits)

lemma payment_keeps_payments: "payments (snd (payment U a s u k request_data)) = payments s"
proof (cases "PaymentView_post U s u k request_data")
  case (Pair r s')
  have "payments s' = payments s"
    using PaymentView_post_payments[of U s u k request_data] Pair by simp
  then show ?thesis
    using Pair by (simp add: payment_def respond_payments)
qed

text \<open>
  \<open>PaymentSerializer.create\<close> is the code that inserts a \<open>Payment\<close> row, and it is
  reached only by a serializer built without an instance, as shopapp/test_serializers.py
  builds it (\<open>PaymentSerializer(data=data, context={'order': order})\<close>).
\<close>

lemma serializer_with_context_creates:
  "PaymentSerializer_save None (Some order) c (rows, pays)
     = Inr (rows, pays @ [\<lparr>payment_order = pk order, payment_card = c\<rparr>])"
  by (simp add: PaymentSerializer_save_def PaymentSerializer_create_def)

text \<open>
  C1: the claim promises a persisted \<open>Payment\<close> record. On the request of
  \<open>test_post_payment_details\<close> (the owner pays the confirmed order with a valid card)
  the view answers 200 and the order becomes paid, but the table of payments is still
  empty: the view passes the order as the serializer's instance, so \<open>save\<close> runs
  \<open>update\<close> on the order and never \<open>create\<close>. The card is ASCII text, so this holds
  for whatever the Unicode tables say elsewhere.
\<close>

theorem payment_view_creates_no_payment:
  assumes "has_ascii_rows U"
  shows "fst (payment U a test_state (User (Some 1)) 1 test_payment_data) = Response 200 NoBody
       \<and> orders (snd (payment U a test_state (User (Some 1)) 1 test_payment_data))
           = [test_order\<lparr>status := ''paid''\<rparr>]
       \<and> payments (snd (payment U a test_state (User (Some 1)) 1 test_payment_data)) = []"
  using test_payment_data_valid[OF assms]
  by (simp add: payment_def PaymentView_post_def IsAuthenticated_def user_profile_def
        respond_def PaymentSerializer_save_def PaymentSerializer_update_def Order_save_def
        write_row_def Order_get_def test_state_def test_order_def)

theorem payment_view_creates_no_payment_witness:
  "has_ascii_rows latin1_rows
   \<and> fst (payment latin1_rows False test_state (User (Some 1)) 1 test_payment_data) = Response 200 NoBody
   \<and> orders (snd (payment latin1_rows False test_state (User (Some 1)) 1 test_payment_data))
       = [test_order\<lparr>status := ''paid''\<rparr>]
   \<and> payments (snd (payment latin1_rows False test_state (User (Some 1)) 1 test_payment_data)) = []"
  using latin1_has_ascii_rows payment_view_creates_no_payment[OF latin1_has_ascii_rows, of False]
  by simp

section \<open>Card validation\<close>



lemma and_then_Inl:
  "and_then r r' = Inl e \<longleftrightarrow> r = Inl e \<or> ((\<exists>errs. r = Inr errs) \<and> r' = Inl e)"
  by (auto simp: and_then_def split: sum.splits)















lemma respond_unchanged: "snd (respond a s (Inl e, s)) = s"
  by (cases e) (simp_all add: respond_def rollback_same)

lemma respond_ok: "respond a s (Inr resp, s') = (resp, s')"
  by (simp add: respond_def)






section \<open>Confirmation\<close>

lemma update_pk: "pk (OrderConfirmSerializer_update order d) = pk order"
  by (simp add: OrderConfirmSerializer_update_def)

lemma get_no_rule:
  "t \<notin> dtype ` set rules \<Longrightarrow> OrderDeliveryType_get rules t = Inl (DoesNotExist ''OrderDeliveryType'')"
proof -
  assume "t \<notin> dtype ` set rules"
  then have "filter (\<lambda>r. dtype r = t) rules = []"
    by (auto simp: filter_empty_conv)
  then show ?thesis by (simp add: OrderDeliveryType_get_def)
qed

lemma get_one_rule:
  "filter (\<lambda>r. dtype r = t) rules = [rule] \<Longrightarrow> OrderDeliveryType_get rules t = Inr rule"
  by (simp add: OrderDeliveryType_get_def)

lemma confirmation_valid:
  assumes "Order_get (orders s) k = Some order" and "profile order = Some p"
      and "status order \<noteq> ''paid''"
      and "OrderConfirmSerializer_is_valid (delivery_types s) d = Inr (Inr d')"
      and "\<bar>totalCost (OrderConfirmSerializer_update order d')\<bar> < 10 ^ 13"
  shows "fst (confirmation a s (User (Some p)) k d) = Response 200 NoBody"
    and "Order_get (orders (snd (confirmation a s (User (Some p)) k d))) k
           = Some ((OrderConfirmSerializer_update order d')\<lparr>status := ''confirmed''\<rparr>)"
proof -
  let ?saved = "OrderConfirmSerializer_update order d'"
  have k: "pk order = k" using assms(1) by (rule Order_get_pk)
  have s1: "Order_save ?saved (orders s) = Inr (write_row ?saved (orders s))"
    using assms(5) by (rule Order_save_fits)
  have s2: "Order_save (?saved\<lparr>status := ''confirmed''\<rparr>) rows
              = Inr (write_row (?saved\<lparr>status := ''confirmed''\<rparr>) rows)" for rows
    using assms(5) by (simp add: Order_save_def)
  have c: "confirmation a s (User (Some p)) k d =
             (Response 200 NoBody,
              s\<lparr>orders := write_row (?saved\<lparr>status := ''confirmed''\<rparr>) (write_row ?saved (orders s))\<rparr>)"
    using assms(1-4)
    by (simp add: confirmation_def OrderDetailView_post_def IsAuthenticated_def user_profile_def
          respond_def Let_def s1 s2)
  show "fst (confirmation a s (User (Some p)) k d) = Response 200 NoBody"
    by (simp add: c)
  have 1: "Order_get (write_row ?saved (orders s)) (pk ?saved) = Some ?saved"
    using assms(1) k by (intro Order_get_write_same[of _ _ order]) (simp add: update_pk)
  have 2: "Order_get (write_row (?saved\<lparr>status := ''confirmed''\<rparr>) (write_row ?saved (orders s)))
             (pk (?saved\<lparr>status := ''confirmed''\<rparr>)) = Some (?saved\<lparr>status := ''confirmed''\<rparr>)"
    using 1 by (intro Order_get_write_same[of _ _ ?saved]) simp
  show "Order_get (orders (snd (confirmation a s (User (Some p)) k d))) k
           = Some (?saved\<lparr>status := ''confirmed''\<rparr>)"
    using 2 k by (simp add: c update_pk)
qed

lemma confirmation_unfit:
  assumes "Order_get (orders s) k = Some order" and "profile order = Some p"
      and "status order \<noteq> ''paid''"
      and "OrderConfirmSerializer_is_valid (delivery_types s) d = Inr (Inr d')"
      and "10 ^ 13 \<le> \<bar>totalCost (OrderConfirmSerializer_update order d')\<bar>"
  shows "confirmation a s (User (Some p)) k d = (Response 500 (ServerError InvalidOperation), s)"
  using assms
  by (simp add: confirmation_def OrderDetailView_post_def IsAuthenticated_def user_profile_def
        respond_def Let_def Order_save_def rollback_same)

lemma confirmation_overflow:
  assumes "Order_get (orders s) k = Some order" and "profile order = Some p"
      and "status order \<noteq> ''paid''"
      and "OrderConfirmSerializer_is_valid (delivery_types s) d = Inl Overflow"
  shows "confirmation a s (User (Some p)) k d = (Response 500 (ServerError Overflow), s)"
  using assms
  by (simp add: confirmation_def OrderDetailView_post_def IsAuthenticated_def user_profile_def
        respond_def rollback_same)

lemma confirmation_errors:
  assumes "Order_get (orders s) k = Some order" and "profile order = Some p"
      and "status order \<noteq> ''paid''"
      and "OrderConfirmSerializer_is_valid (delivery_types s) d = Inr (Inl errs)"
  shows "confirmation a s (User (Some p)) k d = (Response 400 (Errors errs), s)"
  using assms
  by (simp add: confirmation_def OrderDetailView_post_def IsAuthenticated_def user_profile_def
        respond_def)

lemma is_valid_no_rule:
  assumes "OrderConfirmSerializer_fields d = []" and "data_deliveryType d = Some dt"
      and "dt \<notin> dtype ` set rules"
  shows "OrderConfirmSerializer_is_valid rules d
           = Inr (Inl [(''non_field_errors'', [Message (''Unsupported delivery type: '' @ dt)])])"
  using assms(1,2) get_no_rule[OF assms(3)]
  by (simp add: OrderConfirmSerializer_is_valid_def OrderConfirmSerializer_validate_def
        to_internal_value_def)

lemma is_valid_waived:
  assumes "OrderConfirmSerializer_fields d = []" and "data_deliveryType d = Some dt"
      and "filter (\<lambda>r. dtype r = dt) rules = [rule]" and "data_totalCost d = Some subtotal"
      and "dt = ''free'' \<and> min_cost rule < hundredths subtotal"
  shows "OrderConfirmSerializer_is_valid rules d = Inr (Inr (to_internal_value d))"
  using assms(1,2,4,5) get_one_rule[OF assms(3)]
  by (simp add: OrderConfirmSerializer_is_valid_def OrderConfirmSerializer_validate_def
        to_internal_value_def)

lemma is_valid_charged:
  assumes "OrderConfirmSerializer_fields d = []" and "data_deliveryType d = Some dt"
      and "filter (\<lambda>r. dtype r = dt) rules = [rule]" and "data_totalCost d = Some subtotal"
      and "\<not> (dt = ''free'' \<and> min_cost rule < hundredths subtotal)"
  shows "OrderConfirmSerializer_is_valid rules d
           = (case context_round (hundredths subtotal + delivery_cost rule) of
                Inl e \<Rightarrow> Inl e
              | Inr cost \<Rightarrow> Inr (Inr ((to_internal_value d)\<lparr>data_totalCost := Some cost\<rparr>)))"
  using assms(1,2,4,5) get_one_rule[OF assms(3)]
  by (auto simp: OrderConfirmSerializer_is_valid_def OrderConfirmSerializer_validate_def
        to_internal_value_def decimal_add_def split: sum.splits)

lemma context_round_cases:
  obtains "\<bar>v\<bar> < 10 ^ 28" "context_round v = Inr v"
  | "10 ^ 28 \<le> \<bar>v\<bar>" "context_round v = Inl Overflow"
  | r where "10 ^ 28 \<le> \<bar>v\<bar>" "context_round v = Inr r" "10 ^ 28 \<le> \<bar>r\<bar>"
proof (cases "\<bar>v\<bar> < 10 ^ 28")
  case True
  then show ?thesis using context_round_exact[of v] that(1) by blast
next
  case False
  then have l: "10 ^ 28 \<le> \<bar>v\<bar>" by simp
  show ?thesis
  proof (cases "context_round v")
    case (Inl e)
    then have "e = Overflow"
      by (simp add: context_round_def Let_def split: if_splits)
    then show ?thesis using Inl l that(2) by blast
  next
    case (Inr r)
    then show ?thesis using context_round_large[OF l Inr] l that(3) by blast
  qed
qed

lemma confirmation_total:
  assumes "Order_get (orders s) k = Some order" and "profile order = Some p"
      and "status order \<noteq> ''paid''"
      and "OrderConfirmSerializer_is_valid (delivery_types s) d
             = Inr (Inr ((to_internal_value d)\<lparr>data_totalCost := Some cost\<rparr>))"
      and "data_deliveryType d = Some dt"
  shows "if \<bar>cost\<bar> < 10 ^ 13
         then fst (confirmation a s (User (Some p)) k d) = Response 200 NoBody
            \<and> Order_get (orders (snd (confirmation a s (User (Some p)) k d))) k
                = Some (order
                     \<lparr>deliveryType := dt,
                      paymentType := case_option (paymentType order) id (data_paymentType d),
                      totalCost := cost,
                      status := ''confirmed'',
                      city := case_option (city order) id (data_city d),
                      address := case_option (address order) id (data_address d)\<rparr>)
         else status_code (fst (confirmation a s (User (Some p)) k d)) = 500
            \<and> snd (confirmation a s (User (Some p)) k d) = s"
proof (cases "\<bar>cost\<bar> < 10 ^ 13")
  case True
  then have f: "\<bar>totalCost (OrderConfirmSerializer_update order
                   ((to_internal_value d)\<lparr>data_totalCost := Some cost\<rparr>))\<bar> < 10 ^ 13"
    by (simp add: OrderConfirmSerializer_update_def)
  show ?thesis
    using True confirmation_valid[OF assms(1-4) f, of a] assms(5)
    by (simp add: OrderConfirmSerializer_update_def to_internal_value_def)
next
  case False
  then have f: "10 ^ 13 \<le> \<bar>totalCost (OrderConfirmSerializer_update order
                   ((to_internal_value d)\<lparr>data_totalCost := Some cost\<rparr>))\<bar>"
    by (simp add: OrderConfirmSerializer_update_def)
  show ?thesis
    using False confirmation_unfit[OF assms(1-4) f, of a] by simp
qed

lemma to_internal_value_same:
  "data_totalCost d = Some subtotal
   \<Longrightarrow> (to_internal_value d)\<lparr>data_totalCost := Some (hundredths subtotal)\<rparr> = to_internal_value d"
  by (simp add: to_internal_value_def)

text \<open>
  C6: confirmation of a non-paid order by its owner, with a body whose fields pass the
  field checks, looks the pricing rule up by \<open>deliveryType\<close>. If no rule has this type
  the answer is the validation error naming the unsupported type, and the state (the
  order's status with it) is unchanged. If exactly one rule has this type, the total is
  the supplied subtotal when the type is \<open>free\<close> and the subtotal exceeds the rule's
  \<open>min_cost\<close>, and the subtotal plus the rule's \<open>delivery_cost\<close> otherwise; when
  this total fits the column of \<open>totalCost\<close> the answer is 200 and the persisted order
  carries the fields of the body, this total and the status confirmed; when it does not,
  saving raises, the request ends as a server error and the state is unchanged.
\<close>

theorem confirmation_delivery_fee:
  assumes "Order_get (orders s) k = Some order" and "profile order = Some p"
      and "status order \<noteq> ''paid''"
      and "OrderConfirmSerializer_fields d = []" and "data_deliveryType d = Some dt"
  shows "(dt \<notin> dtype ` set (delivery_types s) \<longrightarrow>
            confirmation a s (User (Some p)) k d
              = (Response 400
                   (Errors [(''non_field_errors'', [Message (''Unsupported delivery type: '' @ dt)])]), s))
       \<and> (filter (\<lambda>r. dtype r = dt) (delivery_types s) = [rule] \<and> data_totalCost d = Some subtotal \<longrightarrow>
            (let cost = (if dt = ''free'' \<and> min_cost rule < hundredths subtotal then hundredths subtotal
                         else hundredths subtotal + delivery_cost rule)
             in if \<bar>cost\<bar> < 10 ^ 13
                then fst (confirmation a s (User (Some p)) k d) = Response 200 NoBody
                   \<and> Order_get (orders (snd (confirmation a s (User (Some p)) k d))) k
                       = Some (order
                            \<lparr>deliveryType := dt,
                             paymentType := case_option (paymentType order) id (data_paymentType d),
                             totalCost := cost,
                             status := ''confirmed'',
                             city := case_option (city order) id (data_city d),
                             address := case_option (address order) id (data_address d)\<rparr>)
                else status_code (fst (confirmation a s (User (Some p)) k d)) = 500
                   \<and> snd (confirmation a s (User (Some p)) k d) = s))"
proof (intro conjI impI)
  assume "dt \<notin> dtype ` set (delivery_types s)"
  then show "confirmation a s (User (Some p)) k d
              = (Response 400
                   (Errors [(''non_field_errors'', [Message (''Unsupported delivery type: '' @ dt)])]), s)"
    using confirmation_errors[OF assms(1-3)] is_valid_no_rule[OF assms(4,5)] by simp
next
  assume r: "filter (\<lambda>r. dtype r = dt) (delivery_types s) = [rule] \<and> data_totalCost d = Some subtotal"
  then have r1: "filter (\<lambda>r. dtype r = dt) (delivery_types s) = [rule]"
        and r2: "data_totalCost d = Some subtotal"
    by simp_all
  let ?waived = "dt = ''free'' \<and> min_cost rule < hundredths subtotal"
  let ?sum = "hundredths subtotal + delivery_cost rule"
  let ?goal = "\<lambda>cost. if \<bar>cost\<bar> < 10 ^ 13
                then fst (confirmation a s (User (Some p)) k d) = Response 200 NoBody
                   \<and> Order_get (orders (snd (confirmation a s (User (Some p)) k d))) k
                       = Some (order
                            \<lparr>deliveryType := dt,
                             paymentType := case_option (paymentType order) id (data_paymentType d),
                             totalCost := cost,
                             status := ''confirmed'',
                             city := case_option (city order) id (data_city d),
                             address := case_option (address order) id (data_address d)\<rparr>)
                else status_code (fst (confirmation a s (User (Some p)) k d)) = 500
                   \<and> snd (confirmation a s (User (Some p)) k d) = s"
  have "?goal (if ?waived then hundredths subtotal else ?sum)"
  proof (cases ?waived)
    case True
    have v: "OrderConfirmSerializer_is_valid (delivery_types s) d
               = Inr (Inr ((to_internal_value d)\<lparr>data_totalCost := Some (hundredths subtotal)\<rparr>))"
      using is_valid_waived[OF assms(4,5) r1 r2 True] to_internal_value_same[OF r2] by simp
    show ?thesis
      using True confirmation_total[OF assms(1-3) v assms(5), of a] by simp
  next
    case False
    note v = is_valid_charged[OF assms(4,5) r1 r2 False]
    have e: "(if ?waived then hundredths subtotal else ?sum) = ?sum"
      by (rule if_not_P[OF False])
    show ?thesis
      unfolding e
    proof (cases ?sum rule: context_round_cases)
      case 1
      have v1: "OrderConfirmSerializer_is_valid (delivery_types s) d
                  = Inr (Inr ((to_internal_value d)\<lparr>data_totalCost := Some ?sum\<rparr>))"
        using v 1(2) by simp
      show "?goal ?sum"
        using confirmation_total[OF assms(1-3) v1 assms(5), of a] by simp
    next
      case 2
      have v2: "OrderConfirmSerializer_is_valid (delivery_types s) d = Inl Overflow"
        using v 2(2) by simp
      have "\<not> \<bar>?sum\<bar> < 10 ^ 13" using 2(1) by simp
      then show "?goal ?sum"
        using confirmation_overflow[OF assms(1-3) v2, of a] by simp
    next
      case (3 r)
      have v3: "OrderConfirmSerializer_is_valid (delivery_types s) d
                  = Inr (Inr ((to_internal_value d)\<lparr>data_totalCost := Some r\<rparr>))"
        using v 3(2) by simp
      have n: "\<not> \<bar>?sum\<bar> < 10 ^ 13" "\<not> \<bar>r\<bar> < 10 ^ 13" using 3(1,3) by simp_all
      show "?goal ?sum"
        using n confirmation_total[OF assms(1-3) v3 assms(5), of a] by simp
    qed
  qed
  then show "let cost = (if ?waived then hundredths subtotal else ?sum) in ?goal cost"
    by (simp only: Let_def)
qed

theorem confirmation_delivery_fee_witness:
  "Order_get (orders spec_state) 1 = Some (test_order\<lparr>status := ''accepted''\<rparr>)
   \<and> profile (test_order\<lparr>status := ''accepted''\<rparr>) = Some 1
   \<and> status (test_order\<lparr>status := ''accepted''\<rparr>) \<noteq> ''paid''
   \<and> OrderConfirmSerializer_fields (spec_order_data (Decimal 199900 (- 2))) = []
   \<and> data_deliveryType (spec_order_data (Decimal 199900 (- 2))) = Some ''free''
   \<and> filter (\<lambda>r. dtype r = ''free'') (delivery_types spec_state)
       = [\<lparr>dtype = ''free'', min_cost = 200000, delivery_cost = 20000\<rparr>]
   \<and> fst (confirmation False spec_state (User (Some 1)) 1 (spec_order_data (Decimal 199900 (- 2))))
       = Response 200 NoBody
   \<and> map_option totalCost
        (Order_get (orders (snd (confirmation False spec_state (User (Some 1)) 1
                                   (spec_order_data (Decimal 199900 (- 2)))))) 1)
       = Some 219900
   \<and> map_option status
        (Order_get (orders (snd (confirmation False spec_state (User (Some 1)) 1
                                   (spec_order_data (Decimal 199900 (- 2)))))) 1)
       = Some ''confirmed''
   \<and> map_option totalCost
        (Order_get (orders (snd (confirmation False spec_state (User (Some 1)) 1
                                   (spec_order_data (Decimal 299900 (- 2)))))) 1)
       = Some 299900
   \<and> confirmation False spec_state (User (Some 1)) 1
        (spec_order_data (Decimal 299900 (- 2))\<lparr>data_deliveryType := Some ''express''\<rparr>)
       = (Response 400 (Errors [(''non_field_errors'', [Message ''Unsupported delivery type: express''])]),
          spec_state)"
proof -
  let ?order = "test_order\<lparr>status := ''accepted''\<rparr>"
  let ?rule = "\<lparr>dtype = ''free'', min_cost = 200000, delivery_cost = 20000\<rparr>"
  let ?e = "spec_order_data (Decimal 299900 (- 2))\<lparr>data_deliveryType := Some ''express''\<rparr>"
  have o: "Order_get (orders spec_state) 1 = Some ?order"
    by (simp add: spec_state_def test_state_def test_order_def Order_get_def)
  have p: "profile ?order = Some 1" and st: "status ?order \<noteq> ''paid''"
    by (simp_all add: test_order_def)
  have n: "ndigits 199900 = 6" "ndigits 299900 = 6"
    by (simp_all add: ndigits.simps)
  have f: "OrderConfirmSerializer_fields (spec_order_data (Decimal 199900 (- 2))) = []"
          "OrderConfirmSerializer_fields (spec_order_data (Decimal 299900 (- 2))) = []"
          "OrderConfirmSerializer_fields ?e = []"
    by (simp_all add: OrderConfirmSerializer_fields_def partial_field_def char_field_def
          partial_decimal_def decimal_field_def n spec_order_data_def test_order_data_def)
  have t: "data_deliveryType (spec_order_data x) = Some ''free''" for x
    by (simp add: spec_order_data_def test_order_data_def)
  have te: "data_deliveryType ?e = Some ''express''"
    by simp
  have c: "data_totalCost (spec_order_data x) = Some x" for x
    by (simp add: spec_order_data_def)
  have r: "filter (\<lambda>r. dtype r = ''free'') (delivery_types spec_state) = [?rule]"
    by (simp add: spec_state_def test_state_def)
  have x: "''express'' \<notin> dtype ` set (delivery_types spec_state)"
    by (simp add: spec_state_def test_state_def)
  show ?thesis
    using o p st f(1) t[of "Decimal 199900 (- 2)"] r x
      confirmation_delivery_fee[OF o p st f(1) t[of "Decimal 199900 (- 2)"],
        where rule = ?rule and subtotal = "Decimal 199900 (- 2)" and a = False]
      confirmation_delivery_fee[OF o p st f(2) t[of "Decimal 299900 (- 2)"],
        where rule = ?rule and subtotal = "Decimal 299900 (- 2)" and a = False]
      confirmation_delivery_fee[OF o p st f(3) te, where a = False]
    by (simp add: c r hundredths_def)
qed

section \<open>Checkout\<close>

lemma Product_get_pk: "Product_get rows k = Some p \<Longrightarrow> product_pk p = k"
  by (auto simp: Product_get_def find_Some_iff)

lemma create_items_well_formed:
  "list_all well_formed lines \<Longrightarrow>
   create_items prods k lines rows =
     (if list_all (product_exists prods) lines then None else Some (DoesNotExist ''Product''),
      rows @ map (line_item k) (takeWhile (product_exists prods) lines))"
proof (induction lines arbitrary: rows)
  case Nil
  then show ?case by simp
next
  case (Cons l lines)
  from Cons.prems obtain pid q where l: "line_id l = Some pid" "line_count l = Some q" "0 \<le> q"
    by (auto simp: well_formed_def split: option.splits)
  show ?case
  proof (cases "Product_get prods pid")
    case None
    then show ?thesis using l by (simp add: product_exists_def)
  next
    case (Some p)
    have tl: "list_all well_formed lines" using Cons.prems by simp
    show ?thesis
      using l Some Product_get_pk[OF Some] Cons.IH[OF tl]
      by (simp add: product_exists_def line_item_def)
  qed
qed

lemma create_items_success:
  "fst (create_items prods k lines rows) = None \<Longrightarrow>
   list_all well_formed lines \<and> list_all (product_exists prods) lines"
proof (induction lines arbitrary: rows)
  case Nil
  then show ?case by simp
next
  case (Cons l lines)
  from Cons.prems obtain pid q p where
    l: "line_id l = Some pid" "line_count l = Some q" "Product_get prods pid = Some p" "\<not> q < 0"
    by (auto split: option.splits if_splits)
  have here: "well_formed l" "product_exists prods l"
    using l by (simp_all add: well_formed_def product_exists_def)
  have "fst (create_items prods k lines
          (rows @ [\<lparr>item_order = k, item_product = product_pk p, quantity = q\<rparr>])) = None"
    using Cons.prems l by simp
  from Cons.IH[OF this] here show ?case by simp
qed

lemma create_items_done:
  assumes "fst (create_items prods k lines rows) = None"
  shows "create_items prods k lines rows = (None, rows @ map (line_item k) lines)"
proof -
  have wf: "list_all well_formed lines" and ex: "list_all (product_exists prods) lines"
    using create_items_success[OF assms] by simp_all
  have tw: "takeWhile (product_exists prods) lines = lines"
    using ex by (simp add: list_all_iff)
  show ?thesis
    unfolding create_items_well_formed[OF wf, of prods k rows] tw using ex by simp
qed

lemma Order_get_append_new: "pk order = k \<Longrightarrow> \<exists>r. Order_get (rows @ [order]) k = Some r"
  unfolding Order_get_def by (induction rows) auto

lemma order_of_checkout_found:
  "order_of_checkout s u = Inr (order, rows) \<Longrightarrow> \<exists>r. Order_get rows (pk order) = Some r"
  by (auto simp: order_of_checkout_def Order_create_def Let_def
        intro: Order_get_append_new dest: Order_get_pk split: option.splits sum.splits)

lemma respond_exception: "status_code (fst (respond a s (Inl e, s'))) \<noteq> 201"
  by (cases e) (simp_all add: respond_def)

lemma checkout_success_shape:
  assumes "status_code (fst (checkout a s u lines)) = 201"
  obtains order rows cost where
    "order_of_checkout s u = Inr (order, rows)"
    "get_cart_total (Cart (session s)) = Inr cost"
    "\<bar>cost\<bar> < 10 ^ 13"
    "checkout a s u lines =
       (Response 201 (OrderId (pk order)),
        s\<lparr>orders := write_row (order\<lparr>totalCost := cost, status := ''accepted''\<rparr>) rows,
          order_items := order_items s @ map (line_item (pk order)) lines,
          session := \<lparr>cart = None, order_id = None\<rparr>\<rparr>)"
proof (cases "order_of_checkout s u")
  case (Inl e)
  then have "checkout a s u lines
               = respond a s (Inl e, s\<lparr>session := (session s)\<lparr>cart := Some (Cart (session s))\<rparr>\<rparr>)"
    by (simp add: checkout_def OrderView_post_def Let_def)
  then show ?thesis using assms respond_exception by simp
next
  case (Inr found)
  obtain order rows where found: "found = (order, rows)" by (cases found)
  obtain r rows' where c: "create_items (products s) (pk order) lines (order_items s) = (r, rows')"
    by (cases "create_items (products s) (pk order) lines (order_items s)")
  let ?s1 = "s\<lparr>session := (session s)\<lparr>cart := Some (Cart (session s))\<rparr>,
               orders := rows, order_items := rows'\<rparr>"
  show ?thesis
  proof (cases r)
    case (Some e)
    then have "checkout a s u lines = respond a s (Inl e, ?s1)"
      using Inr found c by (simp add: checkout_def OrderView_post_def Let_def)
    then show ?thesis using assms respond_exception by simp
  next
    case None
    then have "fst (create_items (products s) (pk order) lines (order_items s)) = None"
      using c by simp
    from create_items_done[OF this] c
    have rows': "rows' = order_items s @ map (line_item (pk order)) lines"
      by simp
    show ?thesis
    proof (cases "get_cart_total (Cart (session s))")
      case (Inl e)
      then have "checkout a s u lines = respond a s (Inl e, ?s1)"
        using Inr found c None by (simp add: checkout_def OrderView_post_def Let_def)
      then show ?thesis using assms respond_exception by simp
    next
      case t: (Inr cost)
      show ?thesis
      proof (cases "\<bar>cost\<bar> < 10 ^ 13")
        case False
        then have "checkout a s u lines = respond a s (Inl InvalidOperation, ?s1)"
          using Inr found c None t
          by (simp add: checkout_def OrderView_post_def Let_def Order_save_def)
        then show ?thesis using assms respond_exception by simp
      next
        case True
        then have "checkout a s u lines =
           (Response 201 (OrderId (pk order)),
            s\<lparr>orders := write_row (order\<lparr>totalCost := cost, status := ''accepted''\<rparr>) rows,
              order_items := order_items s @ map (line_item (pk order)) lines,
              session := \<lparr>cart = None, order_id = None\<rparr>\<rparr>)"
          using Inr found c None t rows'
          by (simp add: checkout_def OrderView_post_def Let_def respond_def Order_save_def)
        then show ?thesis using that Inr found t True by simp
      qed
    qed
  qed
qed

lemma checkout_empty_body:
  assumes "order_id (session s) = None" and "get_cart_total (Cart (session s)) = Inr cost"
      and "\<bar>cost\<bar> < 10 ^ 13"
  shows "status_code (fst (checkout a s (User (Some p)) [])) = 201"
  using assms
  by (simp add: checkout_def OrderView_post_def order_of_checkout_def user_profile_def
        Order_create_def Order_save_def Let_def respond_def)

text \<open>
  C8, as stated, fails in its last part: the \<open>OrderItem\<close> rows are made from the
  posted lines, not from the cart. With an empty cart and a body of one line, checkout
  answers 201 and the new order has one item.
\<close>

theorem checkout_items_counterexample:
  "Cart (session test_state) = []
   \<and> fst (checkout False test_state (User (Some 1)) [\<lparr>line_id = Some 1, line_count = Some 2\<rparr>])
       = Response 201 (OrderId 2)
   \<and> order_items (snd (checkout False test_state (User (Some 1)) [\<lparr>line_id = Some 1, line_count = Some 2\<rparr>]))
       = [\<lparr>item_order = 2, item_product = 1, quantity = 2\<rparr>]"
  by (simp add: checkout_def OrderView_post_def order_of_checkout_def user_profile_def
        Order_create_def Order_save_def new_pk_def Cart_def Product_get_def Let_def respond_def
        get_cart_total_def test_state_def test_order_def)

text \<open>
  C8, amended: a successful checkout (answer 201) returns the id of the order, whose
  persisted totalCost is the computed total of the session cart (0 for an empty cart)
  and whose status is accepted; it leaves the cart empty; and it inserts one
  \<open>OrderItem\<close> per line of the request body, so none when the body is empty. Without
  an \<open>'order_id'\<close> in the session, a requester with a profile who posts an empty body
  is answered 201 when the total of the cart is computed and fits the column of
  \<open>totalCost\<close>; this is so for an empty cart, whose checkout is legal.
\<close>

theorem checkout_success:
  "(status_code (fst (checkout a s u lines)) = 201 \<longrightarrow>
      (\<exists>order. fst (checkout a s u lines) = Response 201 (OrderId (pk order))
         \<and> Order_get (orders (snd (checkout a s u lines))) (pk order) = Some order
         \<and> get_cart_total (Cart (session s)) = Inr (totalCost order)
         \<and> (Cart (session s) = [] \<longrightarrow> totalCost order = 0)
         \<and> status order = ''accepted''
         \<and> Cart (session (snd (checkout a s u lines))) = []
         \<and> order_items (snd (checkout a s u lines))
             = order_items s @ map (line_item (pk order)) lines))
   \<and> (order_id (session s) = None \<and> get_cart_total (Cart (session s)) = Inr cost \<and> \<bar>cost\<bar> < 10 ^ 13 \<longrightarrow>
        status_code (fst (checkout a s (User (Some p)) [])) = 201)
   \<and> (order_id (session s) = None \<and> Cart (session s) = [] \<longrightarrow>
        status_code (fst (checkout a s (User (Some p)) [])) = 201)"
proof (intro conjI impI)
  assume "status_code (fst (checkout a s u lines)) = 201"
  then obtain order rows cost where
    f: "order_of_checkout s u = Inr (order, rows)" and
    t: "get_cart_total (Cart (session s)) = Inr cost" and
    c: "checkout a s u lines =
       (Response 201 (OrderId (pk order)),
        s\<lparr>orders := write_row (order\<lparr>totalCost := cost, status := ''accepted''\<rparr>) rows,
          order_items := order_items s @ map (line_item (pk order)) lines,
          session := \<lparr>cart = None, order_id = None\<rparr>\<rparr>)"
    by (rule checkout_success_shape)
  let ?order = "order\<lparr>totalCost := cost, status := ''accepted''\<rparr>"
  from order_of_checkout_found[OF f] obtain r where "Order_get rows (pk ?order) = Some r"
    by auto
  then have g: "Order_get (write_row ?order rows) (pk ?order) = Some ?order"
    by (rule Order_get_write_same)
  have z: "Cart (session s) = [] \<longrightarrow> cost = 0"
    using t by (auto simp: get_cart_total_empty)
  have "fst (checkout a s u lines) = Response 201 (OrderId (pk ?order))
         \<and> Order_get (orders (snd (checkout a s u lines))) (pk ?order) = Some ?order
         \<and> get_cart_total (Cart (session s)) = Inr (totalCost ?order)
         \<and> (Cart (session s) = [] \<longrightarrow> totalCost ?order = 0)
         \<and> status ?order = ''accepted''
         \<and> Cart (session (snd (checkout a s u lines))) = []
         \<and> order_items (snd (checkout a s u lines))
             = order_items s @ map (line_item (pk ?order)) lines"
    using g z t by (simp add: c Cart_def)
  then show "\<exists>order. fst (checkout a s u lines) = Response 201 (OrderId (pk order))
         \<and> Order_get (orders (snd (checkout a s u lines))) (pk order) = Some order
         \<and> get_cart_total (Cart (session s)) = Inr (totalCost order)
         \<and> (Cart (session s) = [] \<longrightarrow> totalCost order = 0)
         \<and> status order = ''accepted''
         \<and> Cart (session (snd (checkout a s u lines))) = []
         \<and> order_items (snd (checkout a s u lines))
             = order_items s @ map (line_item (pk order)) lines"
    by (rule exI)
next
  assume "order_id (session s) = None \<and> get_cart_total (Cart (session s)) = Inr cost \<and> \<bar>cost\<bar> < 10 ^ 13"
  then show "status_code (fst (checkout a s (User (Some p)) [])) = 201"
    using checkout_empty_body[of s cost a p] by simp
next
  assume "order_id (session s) = None \<and> Cart (session s) = []"
  then show "status_code (fst (checkout a s (User (Some p)) [])) = 201"
    using checkout_empty_body[of s 0 a p] by (simp add: get_cart_total_empty)
qed

lemma cart_state_checkout:
  "checkout False cart_state (User (Some 1)) test_lines =
     (Response 201 (OrderId 1),
      cart_state\<lparr>orders := [\<lparr>pk = 1, profile = Some 1, deliveryType = [], paymentType = [],
                                totalCost = 5000, status = ''accepted'', city = [], address = []\<rparr>],
                 order_items := [\<lparr>item_order = 1, item_product = 1, quantity = 2\<rparr>,
                                 \<lparr>item_order = 1, item_product = 2, quantity = 1\<rparr>],
                 session := \<lparr>cart = None, order_id = None\<rparr>\<rparr>)"
proof -
  have w: "within_precision test_cart"
    by (simp add: within_precision_def test_cart_def)
  have t: "get_cart_total (Cart (session cart_state)) = Inr 5000"
    using get_cart_total_sum[OF w]
    by (simp add: Cart_def cart_state_def sum_of_lines_def test_cart_def)
  show ?thesis
    using t
    by (simp add: checkout_def OrderView_post_def order_of_checkout_def user_profile_def
        Order_create_def Order_save_def write_row_def new_pk_def Product_get_def Let_def respond_def
        cart_state_def test_state_def test_lines_def)
qed

theorem checkout_success_witness:
  "status_code (fst (checkout False cart_state (User (Some 1)) test_lines)) = 201
   \<and> order_id (session cart_state) = None
   \<and> get_cart_total (Cart (session cart_state)) = Inr 5000
   \<and> order_id (session test_state) = None \<and> Cart (session test_state) = []
   \<and> fst (checkout False cart_state (User (Some 1)) test_lines) = Response 201 (OrderId 1)
   \<and> map_option totalCost (Order_get (orders (snd (checkout False cart_state (User (Some 1)) test_lines))) 1)
       = Some 5000
   \<and> Cart (session (snd (checkout False cart_state (User (Some 1)) test_lines))) = []
   \<and> status_code (fst (checkout False cart_state (User (Some 1)) [])) = 201
   \<and> status_code (fst (checkout False test_state (User (Some 1)) [])) = 201"
proof -
  have h1: "status_code (fst (checkout False cart_state (User (Some 1)) test_lines)) = 201"
    unfolding cart_state_checkout by simp
  have h2: "order_id (session cart_state) = None"
    by (simp add: cart_state_def)
  have h3: "order_id (session test_state) = None" "Cart (session test_state) = []"
    by (simp_all add: test_state_def Cart_def)
  have w: "within_precision test_cart"
    by (simp add: within_precision_def test_cart_def)
  have t: "get_cart_total (Cart (session cart_state)) = Inr 5000"
    using get_cart_total_sum[OF w]
    by (simp add: Cart_def cart_state_def sum_of_lines_def test_cart_def)
  from checkout_success[of False cart_state "User (Some 1)" test_lines 5000 1] h1 h2 t
  obtain order where
    o: "fst (checkout False cart_state (User (Some 1)) test_lines) = Response 201 (OrderId (pk order))"
       "Order_get (orders (snd (checkout False cart_state (User (Some 1)) test_lines))) (pk order) = Some order"
       "get_cart_total (Cart (session cart_state)) = Inr (totalCost order)"
       "Cart (session (snd (checkout False cart_state (User (Some 1)) test_lines))) = []"
    and e: "status_code (fst (checkout False cart_state (User (Some 1)) [])) = 201"
    by auto
  have e': "status_code (fst (checkout False test_state (User (Some 1)) [])) = 201"
    using checkout_success[of False test_state "User (Some 1)" "[]" 0 1] h3 by simp
  have "pk order = 1" using o(1) unfolding cart_state_checkout by simp
  then show ?thesis using h1 h2 h3 o e e' t by simp
qed




section \<open>What an operation does to the tables\<close>

lemma respond_orders:
  "orders (snd (respond a s (Inl e, s'))) = (if a then orders s else orders s')"
  by (cases e) (simp_all add: respond_def rollback_def)

lemma respond_session:
  "session (snd (respond a s (Inl e, s'))) = session s \<or>
   session (snd (respond a s (Inl e, s'))) = session s'"
  by (cases e) (simp_all add: respond_def rollback_def)

lemma confirmation_state:
  "snd (confirmation a s u k d) = s \<or>
   (\<exists>order d'. Order_get (orders s) k = Some order \<and> status order \<noteq> ''paid''
      \<and> OrderConfirmSerializer_is_valid (delivery_types s) d = Inr (Inr d')
      \<and> snd (confirmation a s u k d)
          = s\<lparr>orders := write_row ((OrderConfirmSerializer_update order d')\<lparr>status := ''confirmed''\<rparr>)
                          (write_row (OrderConfirmSerializer_update order d') (orders s))\<rparr>)"
proof (cases "OrderDetailView_post s u k d")
  case (Pair r s')
  show ?thesis
  proof (cases r)
    case (Inl e)
    have "s' = s"
      using Pair Inl
      by (auto simp: OrderDetailView_post_def Order_save_def Let_def
            split: if_splits option.splits sum.splits)
    then show ?thesis using Pair Inl by (simp add: confirmation_def respond_unchanged)
  next
    case (Inr resp)
    then show ?thesis
      using Pair
      by (auto simp: confirmation_def respond_ok OrderDetailView_post_def Order_save_def Let_def
            split: if_splits option.splits sum.splits)
  qed
qed

lemma payment_state:
  "snd (payment U a s u k d) = s \<or>
   (\<exists>order. Order_get (orders s) k = Some order \<and> status order \<noteq> ''paid''
      \<and> snd (payment U a s u k d)
          = s\<lparr>orders := write_row (order\<lparr>status := ''paid''\<rparr>) (write_row order (orders s))\<rparr>)"
proof (cases "PaymentView_post U s u k d")
  case (Pair r s')
  show ?thesis
  proof (cases r)
    case (Inl e)
    have "s' = s"
      using Pair Inl
      by (auto simp: PaymentView_post_def PaymentSerializer_save_def PaymentSerializer_update_def
            Order_save_def Let_def
            split: if_splits option.splits sum.splits list.splits)
    then show ?thesis using Pair Inl by (simp add: payment_def respond_unchanged)
  next
    case (Inr resp)
    then show ?thesis
      using Pair
      by (auto simp: payment_def respond_ok PaymentView_post_def PaymentSerializer_save_def
            PaymentSerializer_update_def Order_save_def Let_def
            split: if_splits option.splits sum.splits list.splits)
  qed
qed

lemma checkout_orders:
  "orders (snd (checkout a s u lines)) = orders s \<or>
   (\<exists>order rows. order_of_checkout s u = Inr (order, rows) \<and>
      (orders (snd (checkout a s u lines)) = rows \<or>
       (\<exists>cost. get_cart_total (Cart (session s)) = Inr cost \<and>
          orders (snd (checkout a s u lines))
            = write_row (order\<lparr>totalCost := cost, status := ''accepted''\<rparr>) rows)))"
proof (cases "order_of_checkout s u")
  case (Inl e)
  then have "checkout a s u lines
               = respond a s (Inl e, s\<lparr>session := (session s)\<lparr>cart := Some (Cart (session s))\<rparr>\<rparr>)"
    by (simp add: checkout_def OrderView_post_def Let_def)
  then show ?thesis by (simp add: respond_orders)
next
  case (Inr found)
  obtain order rows where found: "found = (order, rows)" by (cases found)
  obtain r rows' where c: "create_items (products s) (pk order) lines (order_items s) = (r, rows')"
    by (cases "create_items (products s) (pk order) lines (order_items s)")
  let ?s1 = "s\<lparr>session := (session s)\<lparr>cart := Some (Cart (session s))\<rparr>,
               orders := rows, order_items := rows'\<rparr>"
  show ?thesis
  proof (cases r)
    case (Some e)
    then have "checkout a s u lines = respond a s (Inl e, ?s1)"
      using Inr found c by (simp add: checkout_def OrderView_post_def Let_def)
    then show ?thesis using Inr found by (simp add: respond_orders)
  next
    case None
    show ?thesis
    proof (cases "get_cart_total (Cart (session s))")
      case (Inl e)
      then have "checkout a s u lines = respond a s (Inl e, ?s1)"
        using Inr found c None by (simp add: checkout_def OrderView_post_def Let_def)
      then show ?thesis using Inr found by (simp add: respond_orders)
    next
      case t: (Inr cost)
      show ?thesis
      proof (cases "\<bar>cost\<bar> < 10 ^ 13")
        case False
        then have "checkout a s u lines = respond a s (Inl InvalidOperation, ?s1)"
          using Inr found c None t
          by (simp add: checkout_def OrderView_post_def Let_def Order_save_def)
        then show ?thesis using Inr found by (simp add: respond_orders)
      next
        case True
        then show ?thesis
          using Inr found c None t
          by (simp add: checkout_def OrderView_post_def Let_def respond_ok Order_save_def)
      qed
    qed
  qed
qed

lemma checkout_order_id:
  assumes "order_id (session s) = None"
  shows "order_id (session (snd (checkout a s u lines))) = None"
proof (cases "OrderView_post s u lines")
  case (Pair r s')
  have s': "order_id (session s') = None"
    using Pair assms
    by (auto simp: OrderView_post_def Let_def split: sum.splits option.splits prod.splits)
  show ?thesis
  proof (cases r)
    case (Inl e)
    then show ?thesis
      using Pair s' assms respond_session[of a s e s'] by (auto simp: checkout_def)
  next
    case (Inr resp)
    then show ?thesis using Pair s' by (simp add: checkout_def respond_ok)
  qed
qed

lemma order_of_checkout_new:
  assumes "order_id (session s) = None" and "order_of_checkout s u = Inr (order, rows)"
  shows "rows = orders s @ [order]" and "pk order = new_pk (orders s)"
  using assms
  by (auto simp: order_of_checkout_def Order_create_def Let_def split: sum.splits)

lemma order_of_checkout_rows:
  assumes "order_of_checkout s u = Inr (order, rows)"
  shows "rows = orders s \<or> (\<exists>p. rows = orders s @ [fst (Order_create p (orders s))])"
  using assms
  by (auto simp: order_of_checkout_def Order_create_def Let_def split: sum.splits option.splits)

section \<open>The total cost\<close>

lemma write_row_all: "list_all P rows \<Longrightarrow> P order \<Longrightarrow> list_all P (write_row order rows)"
  by (induction rows) (simp_all add: write_row_def)

lemma get_rule_mem: "OrderDeliveryType_get rules t = Inr r \<Longrightarrow> r \<in> set rules"
proof -
  assume "OrderDeliveryType_get rules t = Inr r"
  then have "filter (\<lambda>r. dtype r = t) rules = [r]"
    by (auto simp: OrderDeliveryType_get_def split: list.splits)
  then have "r \<in> set (filter (\<lambda>r. dtype r = t) rules)" by simp
  then show ?thesis by simp
qed

lemma is_valid_total:
  assumes "OrderConfirmSerializer_is_valid rules d = Inr (Inr d')"
      and "list_all (\<lambda>rule. 0 \<le> delivery_cost rule) rules"
      and "case data_totalCost d of None \<Rightarrow> True | Some subtotal \<Rightarrow> 0 \<le> coefficient subtotal"
  shows "\<exists>t. data_totalCost d' = Some t \<and> 0 \<le> t"
proof -
  from assms(1) obtain dt r t where
    v: "data_deliveryType d = Some dt" "OrderDeliveryType_get rules dt = Inr r"
       "data_totalCost d = Some t"
       "d' = to_internal_value d
        \<or> (\<exists>cost. context_round (hundredths t + delivery_cost r) = Inr cost
              \<and> d' = (to_internal_value d)\<lparr>data_totalCost := Some cost\<rparr>)"
    by (auto simp: OrderConfirmSerializer_is_valid_def OrderConfirmSerializer_validate_def
          to_internal_value_def decimal_add_def
          split: if_splits option.splits sum.splits exn.splits)
  have f: "0 \<le> delivery_cost r"
    using get_rule_mem[OF v(2)] assms(2) by (simp add: list_all_iff)
  have h: "0 \<le> hundredths t" using assms(3) v(3) by (simp add: hundredths_def)
  from v(4) show ?thesis
  proof (elim disjE exE conjE)
    assume "d' = to_internal_value d"
    then show ?thesis using h v(3) by (simp add: to_internal_value_def)
  next
    fix cost
    assume c: "context_round (hundredths t + delivery_cost r) = Inr cost"
       and d': "d' = (to_internal_value d)\<lparr>data_totalCost := Some cost\<rparr>"
    have "0 \<le> cost" using context_round_nonneg[OF _ c] f h by simp
    then show ?thesis using d' by simp
  qed
qed

lemma create_total: "totalCost (fst (Order_create p rows)) = 0"
  by (simp add: Order_create_def Let_def)

lemma checkout_totals:
  assumes "totals_nonnegative s" and "cart_total_nonnegative s"
  shows "totals_nonnegative (snd (checkout a s u lines))"
proof -
  have rows: "list_all (\<lambda>order. 0 \<le> totalCost order) rows"
    if "order_of_checkout s u = Inr (order, rows)" for order rows
    using order_of_checkout_rows[OF that] assms(1)
    by (auto simp: totals_nonnegative_def create_total)
  from checkout_orders[of a s u lines] show ?thesis
  proof (elim disjE exE conjE)
    assume "orders (snd (checkout a s u lines)) = orders s"
    then show ?thesis using assms(1) by (simp add: totals_nonnegative_def)
  next
    fix order rows
    assume "order_of_checkout s u = Inr (order, rows)"
       and "orders (snd (checkout a s u lines)) = rows"
    then show ?thesis using rows by (simp add: totals_nonnegative_def)
  next
    fix order rows cost
    assume f: "order_of_checkout s u = Inr (order, rows)"
       and t: "get_cart_total (Cart (session s)) = Inr cost"
       and o: "orders (snd (checkout a s u lines))
                 = write_row (order\<lparr>totalCost := cost, status := ''accepted''\<rparr>) rows"
    have "0 \<le> cost" using assms(2) t by (simp add: cart_total_nonnegative_def)
    then show ?thesis
      unfolding totals_nonnegative_def o
      using rows[OF f] by (intro write_row_all) simp_all
  qed
qed

lemma confirmation_totals:
  assumes "totals_nonnegative s" and "fees_nonnegative s"
      and "case data_totalCost d of None \<Rightarrow> True | Some subtotal \<Rightarrow> 0 \<le> coefficient subtotal"
  shows "totals_nonnegative (snd (confirmation a s u k d))"
proof -
  from confirmation_state[of a s u k d] show ?thesis
  proof (elim disjE exE conjE)
    assume "snd (confirmation a s u k d) = s"
    then show ?thesis using assms(1) by simp
  next
    fix order d'
    assume v: "OrderConfirmSerializer_is_valid (delivery_types s) d = Inr (Inr d')"
       and c: "snd (confirmation a s u k d)
                 = s\<lparr>orders := write_row ((OrderConfirmSerializer_update order d')\<lparr>status := ''confirmed''\<rparr>)
                          (write_row (OrderConfirmSerializer_update order d') (orders s))\<rparr>"
    from is_valid_total[OF v assms(2)[unfolded fees_nonnegative_def] assms(3)]
    have t: "0 \<le> totalCost (OrderConfirmSerializer_update order d')"
      by (auto simp: OrderConfirmSerializer_update_def)
    show ?thesis
      unfolding totals_nonnegative_def c
      using assms(1) t by (simp add: totals_nonnegative_def write_row_all)
  qed
qed

lemma payment_totals:
  assumes "totals_nonnegative s"
  shows "totals_nonnegative (snd (payment U a s u k d))"
proof -
  from payment_state[of U a s u k d] show ?thesis
  proof (elim disjE exE conjE)
    assume "snd (payment U a s u k d) = s"
    then show ?thesis using assms by simp
  next
    fix order
    assume g: "Order_get (orders s) k = Some order"
       and c: "snd (payment U a s u k d)
                 = s\<lparr>orders := write_row (order\<lparr>status := ''paid''\<rparr>) (write_row order (orders s))\<rparr>"
    have "0 \<le> totalCost order"
      using Order_get_mem[OF g] assms by (simp add: totals_nonnegative_def list_all_iff)
    then show ?thesis
      unfolding totals_nonnegative_def c
      using assms by (simp add: totals_nonnegative_def write_row_all)
  qed
qed

text \<open>
  C9, as stated, fails: confirmation stores the subtotal that the client supplies, plus
  the fee, and nothing checks its sign. A subtotal of -500.00 with a fee of 200.00
  leaves the order with a totalCost of -300.00.
\<close>

theorem negative_subtotal_counterexample:
  "totals_nonnegative spec_state
   \<and> map_option totalCost
       (Order_get (orders (step latin1_rows False spec_state
                             (Confirm (User (Some 1)) 1 (spec_order_data (Decimal (- 50000) (- 2)))))) 1)
       = Some (- 30000)
   \<and> \<not> totals_nonnegative (step latin1_rows False spec_state
                              (Confirm (User (Some 1)) 1 (spec_order_data (Decimal (- 50000) (- 2)))))"
proof -
  have n: "ndigits 50000 = 5"
    by (simp add: ndigits.simps)
  have c: "context_round (- 30000) = Inr (- 30000)"
    by (rule context_round_exact) simp
  show ?thesis
    by (simp add: totals_nonnegative_def confirmation_def OrderDetailView_post_def IsAuthenticated_def
        user_profile_def respond_def OrderConfirmSerializer_is_valid_def
        OrderConfirmSerializer_fields_def partial_field_def char_field_def
        partial_decimal_def decimal_field_def n hundredths_def to_internal_value_def
        decimal_add_def c
        OrderConfirmSerializer_validate_def OrderDeliveryType_get_def
        OrderConfirmSerializer_update_def Order_save_def write_row_def Order_get_def Let_def
        spec_state_def spec_order_data_def test_state_def test_order_def test_order_data_def)
qed

text \<open>
  C9, amended: every core operation (checkout, confirmation, payment) preserves the
  invariant that the totalCost of every order is non-negative, provided that the fees
  of the pricing rules are non-negative, that the computed total of the session cart is
  non-negative, and that the subtotal supplied to a confirmation is non-negative.
\<close>

theorem total_cost_nonnegative:
  assumes "totals_nonnegative s" and "fees_nonnegative s"
      and "cart_total_nonnegative s" and "subtotal_nonnegative op"
  shows "totals_nonnegative (step U a s op)"
proof (cases op)
  case (Checkout u lines)
  then show ?thesis using checkout_totals[OF assms(1,3)] by simp
next
  case (Confirm u k d)
  then show ?thesis
    using confirmation_totals[OF assms(1,2), of d] assms(4) by (simp add: subtotal_nonnegative_def)
next
  case (Pay u k d)
  then show ?thesis using payment_totals[OF assms(1)] by simp
qed

theorem total_cost_nonnegative_witness:
  "totals_nonnegative spec_state \<and> fees_nonnegative spec_state
   \<and> cart_total_nonnegative spec_state
   \<and> subtotal_nonnegative (Confirm (User (Some 1)) 1 (spec_order_data (Decimal 199900 (- 2))))
   \<and> totals_nonnegative (step latin1_rows False spec_state
                            (Confirm (User (Some 1)) 1 (spec_order_data (Decimal 199900 (- 2)))))"
proof -
  have h1: "totals_nonnegative spec_state"
    by (simp add: totals_nonnegative_def spec_state_def test_state_def test_order_def)
  have h2: "fees_nonnegative spec_state"
    by (simp add: fees_nonnegative_def spec_state_def test_state_def)
  have h3: "cart_total_nonnegative spec_state"
    by (simp add: cart_total_nonnegative_def get_cart_total_empty Cart_def spec_state_def test_state_def)
  have h4: "subtotal_nonnegative (Confirm (User (Some 1)) 1 (spec_order_data (Decimal 199900 (- 2))))"
    by (simp add: subtotal_nonnegative_def spec_order_data_def)
  show ?thesis
    using h1 h2 h3 h4 total_cost_nonnegative[OF h1 h2 h3 h4, of latin1_rows False] by simp
qed

section \<open>The status of an order\<close>

lemma foldr_max_ge: "r \<in> set rows \<Longrightarrow> pk r \<le> foldr max (map pk rows) 0"
  by (induction rows) (auto simp: max_def)

lemma new_pk_fresh: "r \<in> set rows \<Longrightarrow> pk r < new_pk rows"
  using foldr_max_ge[of r rows] by (simp add: new_pk_def)

lemma Order_get_append: "Order_get rows k = Some order \<Longrightarrow> Order_get (rows @ xs) k = Some order"
  unfolding Order_get_def by (induction rows) (auto split: if_splits)

lemma rank_not_paid: "st \<noteq> ''paid'' \<Longrightarrow> status_rank st \<le> 2"
  by (simp add: status_rank_def)

lemma rank_le_paid: "status_rank st \<le> 3"
  by (simp add: status_rank_def)

lemma checkout_status:
  assumes "order_id (session s) = None" and "Order_get (orders s) k = Some order"
  shows "Order_get (orders (snd (checkout a s u lines))) k = Some order"
proof -
  from checkout_orders[of a s u lines] show ?thesis
  proof (elim disjE exE conjE)
    assume "orders (snd (checkout a s u lines)) = orders s"
    then show ?thesis using assms(2) by simp
  next
    fix new rows
    assume f: "order_of_checkout s u = Inr (new, rows)"
       and o: "orders (snd (checkout a s u lines)) = rows"
    show ?thesis
      using order_of_checkout_new(1)[OF assms(1) f] o assms(2) by (simp add: Order_get_append)
  next
    fix new rows cost
    assume f: "order_of_checkout s u = Inr (new, rows)"
       and o: "orders (snd (checkout a s u lines))
                 = write_row (new\<lparr>totalCost := cost, status := ''accepted''\<rparr>) rows"
    have "k < new_pk (orders s)"
      using new_pk_fresh[OF Order_get_mem[OF assms(2)]] Order_get_pk[OF assms(2)] by simp
    then have ne: "k \<noteq> pk (new\<lparr>totalCost := cost, status := ''accepted''\<rparr>)"
      using order_of_checkout_new(2)[OF assms(1) f] by simp
    show ?thesis
      unfolding o Order_get_write_other[OF ne]
      using order_of_checkout_new(1)[OF assms(1) f] assms(2) by (simp add: Order_get_append)
  qed
qed

lemma write_twice:
  assumes "Order_get rows k = Some order" and "pk o1 = k" and "pk o2 = k"
  shows "Order_get (write_row o2 (write_row o1 rows)) k' =
           (if k' = k then Some o2 else Order_get rows k')"
proof (cases "k' = k")
  case True
  have 1: "Order_get (write_row o1 rows) (pk o1) = Some o1"
    using assms(1,2) by (intro Order_get_write_same[of _ _ order]) simp
  have "Order_get (write_row o2 (write_row o1 rows)) (pk o2) = Some o2"
    using 1 assms(2,3) by (intro Order_get_write_same[of _ _ o1]) simp
  then show ?thesis using True assms(3) by simp
next
  case False
  then show ?thesis using assms(2,3) by (simp add: Order_get_write_other)
qed

lemma confirmation_status:
  assumes "Order_get (orders s) k = Some order"
  shows "\<exists>order'. Order_get (orders (snd (confirmation a s u k' d))) k = Some order'
           \<and> status_rank (status order) \<le> status_rank (status order')"
proof -
  from confirmation_state[of a s u k' d] show ?thesis
  proof (elim disjE exE conjE)
    assume "snd (confirmation a s u k' d) = s"
    then show ?thesis using assms by simp
  next
    fix target d'
    assume g: "Order_get (orders s) k' = Some target" and np: "status target \<noteq> ''paid''"
       and c: "snd (confirmation a s u k' d)
                 = s\<lparr>orders := write_row ((OrderConfirmSerializer_update target d')\<lparr>status := ''confirmed''\<rparr>)
                          (write_row (OrderConfirmSerializer_update target d') (orders s))\<rparr>"
    have pk: "pk (OrderConfirmSerializer_update target d') = k'"
      using Order_get_pk[OF g] by (simp add: update_pk)
    have get: "Order_get (orders (snd (confirmation a s u k' d))) k =
                 (if k = k' then Some ((OrderConfirmSerializer_update target d')\<lparr>status := ''confirmed''\<rparr>)
                  else Order_get (orders s) k)"
      unfolding c using write_twice[OF g pk, of _ k] pk by simp
    show ?thesis
    proof (cases "k = k'")
      case True
      then have "order = target" using assms g by simp
      then show ?thesis using get True rank_not_paid[OF np] by (simp add: status_rank_def)
    next
      case False
      then show ?thesis using get assms by simp
    qed
  qed
qed

lemma payment_status:
  assumes "Order_get (orders s) k = Some order"
  shows "\<exists>order'. Order_get (orders (snd (payment U a s u k' d))) k = Some order'
           \<and> status_rank (status order) \<le> status_rank (status order')"
proof -
  from payment_state[of U a s u k' d] show ?thesis
  proof (elim disjE exE conjE)
    assume "snd (payment U a s u k' d) = s"
    then show ?thesis using assms by simp
  next
    fix target
    assume g: "Order_get (orders s) k' = Some target"
       and c: "snd (payment U a s u k' d)
                 = s\<lparr>orders := write_row (target\<lparr>status := ''paid''\<rparr>) (write_row target (orders s))\<rparr>"
    have pk: "pk target = k'" by (rule Order_get_pk[OF g])
    have get: "Order_get (orders (snd (payment U a s u k' d))) k =
                 (if k = k' then Some (target\<lparr>status := ''paid''\<rparr>) else Order_get (orders s) k)"
      unfolding c using write_twice[OF g pk, of _ k] pk by simp
    show ?thesis
    proof (cases "k = k'")
      case True
      then show ?thesis using get rank_le_paid[of "status order"] by (simp add: status_rank_def)
    next
      case False
      then show ?thesis using get assms by simp
    qed
  qed
qed

lemma step_order_id:
  assumes "order_id (session s) = None"
  shows "order_id (session (step U a s op)) = None"
proof (cases op)
  case (Checkout u lines)
  then show ?thesis using checkout_order_id[OF assms] by simp
next
  case (Confirm u k d)
  then show ?thesis using confirmation_state[of a s u k d] assms by auto
next
  case (Pay u k d)
  then show ?thesis using payment_state[of U a s u k d] assms by auto
qed

lemma run_order_id:
  "order_id (session s) = None \<Longrightarrow> order_id (session (run U a ops s)) = None"
  unfolding run_def by (induction ops arbitrary: s) (simp_all add: step_order_id)

lemma run_append: "run U a (ops @ ops') s = run U a ops' (run U a ops s)"
  by (simp add: run_def)

lemma step_status:
  assumes "order_id (session s) = None" and "Order_get (orders s) k = Some order"
  shows "\<exists>order'. Order_get (orders (step U a s op)) k = Some order'
           \<and> status_rank (status order) \<le> status_rank (status order')"
proof (cases op)
  case (Checkout u lines)
  then show ?thesis using checkout_status[OF assms] by simp
next
  case (Confirm u k' d)
  then show ?thesis using confirmation_status[OF assms(2)] by simp
next
  case (Pay u k' d)
  then show ?thesis using payment_status[OF assms(2)] by simp
qed

lemma run_status:
  assumes "order_id (session s) = None" and "Order_get (orders s) k = Some order"
  shows "\<exists>order'. Order_get (orders (run U a ops s)) k = Some order'
           \<and> status_rank (status order) \<le> status_rank (status order')"
  using assms unfolding run_def
proof (induction ops arbitrary: s order)
  case Nil
  then show ?case by simp
next
  case (Cons op ops)
  from step_status[OF Cons.prems, of U a op] obtain mid where
    mid: "Order_get (orders (step U a s op)) k = Some mid"
         "status_rank (status order) \<le> status_rank (status mid)"
    by auto
  from Cons.IH[OF step_order_id[OF Cons.prems(1)] mid(1)] obtain order' where
    "Order_get (orders (foldl (step U a) (step U a s op) ops)) k = Some order'"
    "status_rank (status mid) \<le> status_rank (status order')"
    by auto
  then show ?case using mid(2) by auto
qed

text \<open>
  C2: for every order and every sequence of core operations (checkout, confirmation,
  payment), the status of the order only moves forward along accepted, confirmed, paid.
  The sequence starts from a session that carries no \<open>'order_id'\<close>, as every session
  does: nothing in the repository writes this key, and the operations keep it absent.
  An order that is there at some point of the sequence, whether it was there at the start
  or a checkout of the sequence has created it, is still there after any further
  operations, and its status is then at the same place of the path or further on.
\<close>

theorem status_never_backward:
  assumes "order_id (session s) = None" and "Order_get (orders (run U a ops s)) k = Some order"
  shows "\<exists>order'. Order_get (orders (run U a (ops @ ops') s)) k = Some order'
           \<and> status_rank (status order) \<le> status_rank (status order')"
  unfolding run_append
  using run_status[OF run_order_id[OF assms(1)] assms(2)] by simp

lemma spec_confirm:
  "step latin1_rows False spec_state (Confirm (User (Some 1)) 1 (spec_order_data (Decimal 199900 (- 2))))
     = spec_state\<lparr>orders := [\<lparr>pk = 1, profile = Some 1, deliveryType = ''free'',
          paymentType = ''online'', totalCost = 219900, status = ''confirmed'',
          city = ''London'', address = ''221b, Bakers str.''\<rparr>]\<rparr>"
proof -
  have n: "ndigits 199900 = 6"
    by (simp add: ndigits.simps)
  have c: "context_round 219900 = Inr 219900"
    by (rule context_round_exact) simp
  show ?thesis
    by (simp add: confirmation_def OrderDetailView_post_def IsAuthenticated_def
        user_profile_def respond_def OrderConfirmSerializer_is_valid_def
        OrderConfirmSerializer_fields_def partial_field_def char_field_def
        partial_decimal_def decimal_field_def n hundredths_def to_internal_value_def
        decimal_add_def c
        OrderConfirmSerializer_validate_def OrderDeliveryType_get_def
        OrderConfirmSerializer_update_def Order_save_def write_row_def Order_get_def Let_def
        spec_state_def spec_order_data_def test_state_def test_order_def test_order_data_def)
qed

lemma spec_run:
  "map_option status
     (Order_get (orders (run latin1_rows False
                           [Confirm (User (Some 1)) 1 (spec_order_data (Decimal 199900 (- 2))),
                            Pay (User (Some 1)) 1 test_payment_data] spec_state)) 1)
     = Some ''paid''"
  unfolding run_def foldl.simps spec_confirm
  using test_payment_data_valid[OF latin1_has_ascii_rows]
  by (simp add: payment_def PaymentView_post_def IsAuthenticated_def user_profile_def
      respond_def PaymentSerializer_save_def PaymentSerializer_update_def Order_save_def
      write_row_def Order_get_def spec_state_def test_state_def)

theorem status_never_backward_witness:
  "order_id (session spec_state) = None
   \<and> Order_get (orders (run latin1_rows False [] spec_state)) 1 = Some (test_order\<lparr>status := ''accepted''\<rparr>)
   \<and> map_option status
       (Order_get (orders (run latin1_rows False
                             ([] @ [Confirm (User (Some 1)) 1 (spec_order_data (Decimal 199900 (- 2))),
                                    Pay (User (Some 1)) 1 test_payment_data]) spec_state)) 1)
       = Some ''paid''
   \<and> status_rank (status (test_order\<lparr>status := ''accepted''\<rparr>)) \<le> status_rank ''paid''"
proof -
  let ?ops = "[Confirm (User (Some 1)) 1 (spec_order_data (Decimal 199900 (- 2))),
               Pay (User (Some 1)) 1 test_payment_data]"
  have h1: "order_id (session spec_state) = None"
    by (simp add: spec_state_def test_state_def)
  have h2: "Order_get (orders (run latin1_rows False [] spec_state)) 1
              = Some (test_order\<lparr>status := ''accepted''\<rparr>)"
    by (simp add: run_def spec_state_def test_state_def test_order_def Order_get_def)
  from status_never_backward[OF h1 h2, of ?ops]
  obtain order' where
    o: "Order_get (orders (run latin1_rows False ([] @ ?ops) spec_state)) 1 = Some order'"
       "status_rank (status (test_order\<lparr>status := ''accepted''\<rparr>)) \<le> status_rank (status order')"
    by auto
  have "status order' = ''paid''" using spec_run o(1) by simp
  then show ?thesis using h1 h2 o spec_run by simp
qed


end
